theory Spec2Isabelle
  imports Complex_Main
begin

section \<open>JavaScript numbers\<close>

text \<open>
  A number is a finite value, an infinity or \<open>NaN\<close>. Finite values are exact reals here:
  rounding, overflow and underflow are not represented, and there is one zero. The
  infinities and \<open>NaN\<close> follow IEEE 754. A division by the finite zero is a division by
  \<open>+0\<close>, which is the only zero divisor that the functions below can produce (the length of
  an array, a square root).
\<close>

datatype number = Fin real | PInf | NInf | NaN

fun js_add :: "number \<Rightarrow> number \<Rightarrow> number" where
  "js_add (Fin a) (Fin b) = Fin (a + b)"
| "js_add (Fin a) PInf = PInf"
| "js_add (Fin a) NInf = NInf"
| "js_add PInf (Fin b) = PInf"
| "js_add NInf (Fin b) = NInf"
| "js_add PInf PInf = PInf"
| "js_add NInf NInf = NInf"
| "js_add PInf NInf = NaN"
| "js_add NInf PInf = NaN"
| "js_add NaN y = NaN"
| "js_add x NaN = NaN"

fun js_mul :: "number \<Rightarrow> number \<Rightarrow> number" where
  "js_mul (Fin a) (Fin b) = Fin (a * b)"
| "js_mul (Fin a) PInf = (if a = 0 then NaN else if 0 < a then PInf else NInf)"
| "js_mul (Fin a) NInf = (if a = 0 then NaN else if 0 < a then NInf else PInf)"
| "js_mul PInf (Fin b) = (if b = 0 then NaN else if 0 < b then PInf else NInf)"
| "js_mul NInf (Fin b) = (if b = 0 then NaN else if 0 < b then NInf else PInf)"
| "js_mul PInf PInf = PInf"
| "js_mul NInf NInf = PInf"
| "js_mul PInf NInf = NInf"
| "js_mul NInf PInf = NInf"
| "js_mul NaN y = NaN"
| "js_mul x NaN = NaN"

fun js_div :: "number \<Rightarrow> number \<Rightarrow> number" where
  "js_div (Fin a) (Fin b) =
     (if b = 0 then (if a = 0 then NaN else if 0 < a then PInf else NInf) else Fin (a / b))"
| "js_div (Fin a) PInf = Fin 0"
| "js_div (Fin a) NInf = Fin 0"
| "js_div PInf (Fin b) = (if 0 \<le> b then PInf else NInf)"
| "js_div NInf (Fin b) = (if 0 \<le> b then NInf else PInf)"
| "js_div PInf PInf = NaN"
| "js_div NInf NInf = NaN"
| "js_div PInf NInf = NaN"
| "js_div NInf PInf = NaN"
| "js_div NaN y = NaN"
| "js_div x NaN = NaN"

fun js_sqrt :: "number \<Rightarrow> number" where
  "js_sqrt (Fin a) = (if a < 0 then NaN else Fin (sqrt a))"
| "js_sqrt PInf = PInf"
| "js_sqrt NInf = NaN"
| "js_sqrt NaN = NaN"

fun is_finite :: "number \<Rightarrow> bool" where
  "is_finite (Fin a) = True"
| "is_finite x = False"

section \<open>JavaScript values and messages\<close>

text \<open>
  The payloads that cross the worker boundary are untyped JavaScript values. An
  \<open>ArrayBuffer\<close> is the list of its bytes, an object literal the list of its properties in
  the order they are written.
\<close>

datatype jsval =
    JUndefined
  | JNull
  | JBool bool
  | JNum number
  | JStr string
  | JBuf "nat list"
  | JObj "(string \<times> jsval) list"

text \<open>A message handed to \<open>postMessage\<close> is an object literal.\<close>

type_synonym message = "(string \<times> jsval) list"


definition has_field :: "message \<Rightarrow> string \<Rightarrow> bool" where
  "has_field m k = (k \<in> fst ` set m)"

section \<open>The worker: \<open>src/workers/audio-processor.worker.js\<close>\<close>

text \<open>
  A \<open>throw\<close> statement and a rejected promise can carry any value. The \<open>catch\<close> blocks
  of the worker read \<open>error.message\<close> and nothing else of it. For \<open>null\<close> and
  \<open>undefined\<close> this read throws in its turn (\<open>Nullish\<close>). For every other value it gives
  the \<open>message\<close> property of the value: a string for an \<open>Error\<close> object, \<open>undefined\<close> for
  a value that has no such property (\<open>Message\<close>).
\<close>

datatype thrown = Nullish | Message jsval

text \<open>
  The worker imports \<open>loadWasmModule\<close>, \<open>prepareAudioForProcessing\<close> and
  \<open>prepareAudioForPlayback\<close> from \<open>../wasm/echo-cancellation.js\<close>, whose source is not
  available; they are parameters of the model. A call either returns a value (\<open>Inr\<close>) or
  throws one (\<open>Inl\<close>); for a call that is awaited, a rejection of its promise is a throw.

  The loaded module is used through its \<open>processAudio\<close> method only, so a module is that
  method. \<open>loadWasmModule\<close> may resolve to a falsy value (\<open>None\<close>), which the test
  \<open>!wasmModule\<close> does not tell from the initial \<open>null\<close>.

  \<open>postMessage(msg, [buf])\<close> throws an exception object of the runtime when \<open>buf\<close> cannot
  be transferred; \<open>transfer_error\<close> gives the message of that exception, if any.
\<close>

type_synonym wasm_module = "jsval \<Rightarrow> jsval \<Rightarrow> thrown + jsval"

record env =
  loadWasmModule :: "thrown + wasm_module option"
  prepareAudioForProcessing :: "jsval \<Rightarrow> thrown + jsval"
  prepareAudioForPlayback :: "jsval \<Rightarrow> thrown + jsval"
  transfer_error :: "jsval \<Rightarrow> string option"

text \<open>The module-level variable \<open>let wasmModule = null\<close> is the whole state of the worker.\<close>

record worker =
  wasmModule :: "wasm_module option"

text \<open>
  What a handler does, in order: the calls into the imported module and the messages posted
  to the host (with the transfer list of the call).
\<close>

datatype effect =
    Call_loadWasmModule
  | Call_prepareAudioForProcessing jsval
  | Call_processAudio jsval jsval
  | Call_prepareAudioForPlayback jsval
  | PostMessage message "jsval list"

fun posted :: "effect list \<Rightarrow> message list" where
  "posted [] = []"
| "posted (PostMessage m t # es) = m # posted es"
| "posted (e # es) = posted es"

fun is_call :: "effect \<Rightarrow> bool" where
  "is_call (PostMessage m t) = False"
| "is_call e = True"


text \<open>
  \<open>initWasmModule\<close> calls \<open>loadWasmModule\<close> and is suspended at its \<open>await\<close>;
  \<open>initWasmModule_resume\<close> is what it does when the call has settled. In the \<open>catch\<close> branch
  the read of \<open>error.message\<close> comes before \<open>postMessage\<close>: when it throws, nothing is
  posted.
\<close>

definition initWasmModule_resume ::
    "worker \<Rightarrow> thrown + wasm_module option \<Rightarrow> worker \<times> effect list" where
  "initWasmModule_resume w awaited =
     (case awaited of
        Inr m \<Rightarrow>
          (w\<lparr>wasmModule := m\<rparr>,
           [PostMessage [(''type'', JStr ''init''), (''success'', JBool True)] []])
      | Inl Nullish \<Rightarrow> (w, [])
      | Inl (Message err) \<Rightarrow>
          (w,
           [PostMessage [(''type'', JStr ''init''), (''success'', JBool False),
                         (''error'', err)] []]))"

definition initWasmModule :: "env \<Rightarrow> worker \<Rightarrow> worker \<times> effect list" where
  "initWasmModule E w =
     (let (w', es) = initWasmModule_resume w (loadWasmModule E)
      in (w', Call_loadWasmModule # es))"

text \<open>
  The \<open>catch\<close> branch of \<open>processAudio\<close>: the failure message with \<open>error.message\<close>, or
  nothing when that read throws.
\<close>

definition processed_failure :: "jsval \<Rightarrow> effect" where
  "processed_failure err =
     PostMessage [(''type'', JStr ''processed''), (''success'', JBool False),
                  (''error'', err)] []"

fun catch_processAudio :: "thrown \<Rightarrow> effect list" where
  "catch_processAudio Nullish = []"
| "catch_processAudio (Message err) = [processed_failure err]"

definition processed_success :: "jsval \<Rightarrow> effect" where
  "processed_success playbackAudio =
     PostMessage [(''type'', JStr ''processed''), (''success'', JBool True),
                  (''data'', playbackAudio)] [playbackAudio]"

text \<open>
  \<open>processAudio(audioData, settings)\<close>: every statement of the \<open>try\<close> block that throws
  ends in the \<open>catch\<close> branch. The worker's own \<open>throw\<close> and the exception of
  \<open>postMessage\<close> are objects with a \<open>message\<close>. The function does not assign
  \<open>wasmModule\<close>, so it returns its effects only.
\<close>

definition processAudio :: "env \<Rightarrow> worker \<Rightarrow> jsval \<Rightarrow> jsval \<Rightarrow> effect list" where
  "processAudio E w audioData settings =
     (case wasmModule w of
        None \<Rightarrow> catch_processAudio (Message (JStr ''WASM module not initialized''))
      | Some m \<Rightarrow>
          Call_prepareAudioForProcessing audioData #
          (case prepareAudioForProcessing E audioData of
             Inl err \<Rightarrow> catch_processAudio err
           | Inr preparedAudio \<Rightarrow>
               Call_processAudio preparedAudio settings #
               (case m preparedAudio settings of
                  Inl err \<Rightarrow> catch_processAudio err
                | Inr processedAudio \<Rightarrow>
                    Call_prepareAudioForPlayback processedAudio #
                    (case prepareAudioForPlayback E processedAudio of
                       Inl err \<Rightarrow> catch_processAudio err
                     | Inr playbackAudio \<Rightarrow>
                         (case transfer_error E playbackAudio of
                            Some err \<Rightarrow> catch_processAudio (Message (JStr err))
                          | None \<Rightarrow> [processed_success playbackAudio])))))"

text \<open>
  \<open>processAudio\<close> is an \<open>async\<close> function: it runs without interruption up to
  \<open>await wasmModule.processAudio(...)\<close>, where it is suspended until the awaited call has
  settled; the listener can be entered for another message meanwhile. \<open>processAudio_begin\<close>
  is the part before the suspension, giving the outcome that is awaited if the call was
  reached, and \<open>processAudio_resume\<close> the part after it.
\<close>

definition processAudio_begin ::
    "env \<Rightarrow> worker \<Rightarrow> jsval \<Rightarrow> jsval \<Rightarrow> effect list \<times> (thrown + jsval) option" where
  "processAudio_begin E w audioData settings =
     (case wasmModule w of
        None \<Rightarrow> (catch_processAudio (Message (JStr ''WASM module not initialized'')), None)
      | Some m \<Rightarrow>
          (case prepareAudioForProcessing E audioData of
             Inl err \<Rightarrow> (Call_prepareAudioForProcessing audioData # catch_processAudio err, None)
           | Inr preparedAudio \<Rightarrow>
               ([Call_prepareAudioForProcessing audioData,
                 Call_processAudio preparedAudio settings],
                Some (m preparedAudio settings))))"

definition processAudio_resume :: "env \<Rightarrow> thrown + jsval \<Rightarrow> effect list" where
  "processAudio_resume E awaited =
     (case awaited of
        Inl err \<Rightarrow> catch_processAudio err
      | Inr processedAudio \<Rightarrow>
          Call_prepareAudioForPlayback processedAudio #
          (case prepareAudioForPlayback E processedAudio of
             Inl err \<Rightarrow> catch_processAudio err
           | Inr playbackAudio \<Rightarrow>
               (case transfer_error E playbackAudio of
                  Some err \<Rightarrow> catch_processAudio (Message (JStr err))
                | None \<Rightarrow> [processed_success playbackAudio])))"


text \<open>
  The listener destructures \<open>type\<close>, \<open>data\<close> and \<open>settings\<close> from \<open>event.data\<close> and reads
  nothing else of it. \<open>switch\<close> compares with \<open>===\<close>, so only a string can select a case.
  A \<open>type\<close> that is not a string is represented by the text that the template literal
  \<open>`${type}`\<close> yields for it (\<open>undefined\<close> for a missing property).
\<close>

datatype type_field = TStr string | TOther string

fun type_text :: "type_field \<Rightarrow> string" where
  "type_text (TStr s) = s"
| "type_text (TOther s) = s"

record event_data =
  type :: type_field
  data :: jsval
  settings :: jsval

definition unknown_type :: "type_field \<Rightarrow> effect" where
  "unknown_type t =
     PostMessage [(''type'', JStr ''error''),
                  (''message'', JStr (''Unknown message type: '' @ type_text t))] []"

definition handler :: "env \<Rightarrow> worker \<Rightarrow> event_data \<Rightarrow> worker \<times> effect list" where
  "handler E w ev =
     (if type ev = TStr ''init'' then initWasmModule E w
      else if type ev = TStr ''process'' then (w, processAudio E w (data ev) (settings ev))
      else (w, [unknown_type (type ev)]))"

text \<open>
  The listener itself. An \<open>event.data\<close> that is \<open>null\<close> or \<open>undefined\<close> (\<open>None\<close>) cannot be
  destructured: the listener throws before it reaches the \<open>switch\<close>, and nothing is posted.
\<close>

definition listener :: "env \<Rightarrow> worker \<Rightarrow> event_data option \<Rightarrow> worker \<times> effect list" where
  "listener E w msg = (case msg of None \<Rightarrow> (w, []) | Some ev \<Rightarrow> handler E w ev)"

text \<open>The last statement of the script, run once when the worker starts.\<close>

definition worker_start :: "worker \<times> effect list" where
  "worker_start = (\<lparr>wasmModule = None\<rparr>, [PostMessage [(''type'', JStr ''ready'')] []])"

text \<open>Messages handled one after the other, each listener run to its end.\<close>

fun run :: "env \<Rightarrow> worker \<Rightarrow> event_data option list \<Rightarrow> worker \<times> effect list" where
  "run E w [] = (w, [])"
| "run E w (msg # msgs) =
     (let (w', es) = listener E w msg; (w'', es') = run E w' msgs in (w'', es @ es'))"

definition carries_jobId :: "message \<Rightarrow> bool" where
  "carries_jobId m = has_field m ''jobId''"

text \<open>
  The worker with its suspended calls. The listener and the functions it calls are \<open>async\<close>:
  a message is handled up to the first \<open>await\<close> that is reached, and while the awaited
  call has not settled, other messages can be delivered. A suspended \<open>initWasmModule\<close> or
  \<open>processAudio\<close> is represented by what its awaited call settles to. What happens to the
  worker, one occurrence after the other, is the delivery of a message or the resumption
  of one of the suspended calls, in any order.
\<close>

datatype suspended =
    Awaiting_loadWasmModule "thrown + wasm_module option"
  | Awaiting_processAudio "thrown + jsval"

record async_worker =
  variables :: worker
  awaiting :: "suspended list"

datatype occurrence = Deliver "event_data option" | Resume nat

definition deliver :: "env \<Rightarrow> async_worker \<Rightarrow> event_data option \<Rightarrow> async_worker \<times> effect list" where
  "deliver E a msg =
     (case msg of
        None \<Rightarrow> (a, [])
      | Some ev \<Rightarrow>
          if type ev = TStr ''init''
          then (a\<lparr>awaiting := awaiting a @ [Awaiting_loadWasmModule (loadWasmModule E)]\<rparr>,
                [Call_loadWasmModule])
          else if type ev = TStr ''process''
          then (case processAudio_begin E (variables a) (data ev) (settings ev) of
                  (es, None) \<Rightarrow> (a, es)
                | (es, Some awaited) \<Rightarrow>
                    (a\<lparr>awaiting := awaiting a @ [Awaiting_processAudio awaited]\<rparr>, es))
          else (a, [unknown_type (type ev)]))"

definition resume :: "env \<Rightarrow> async_worker \<Rightarrow> nat \<Rightarrow> async_worker \<times> effect list" where
  "resume E a i =
     (if i < length (awaiting a)
      then (let rest = take i (awaiting a) @ drop (Suc i) (awaiting a)
            in case awaiting a ! i of
                 Awaiting_loadWasmModule awaited \<Rightarrow>
                   (let (w', es) = initWasmModule_resume (variables a) awaited
                    in (a\<lparr>variables := w', awaiting := rest\<rparr>, es))
               | Awaiting_processAudio awaited \<Rightarrow>
                   (a\<lparr>awaiting := rest\<rparr>, processAudio_resume E awaited))
      else (a, []))"

fun occur :: "env \<Rightarrow> async_worker \<Rightarrow> occurrence \<Rightarrow> async_worker \<times> effect list" where
  "occur E a (Deliver msg) = deliver E a msg"
| "occur E a (Resume i) = resume E a i"

fun async_run :: "env \<Rightarrow> async_worker \<Rightarrow> occurrence list \<Rightarrow> async_worker \<times> effect list" where
  "async_run E a [] = (a, [])"
| "async_run E a (oc # ocs) =
     (let (a', es) = occur E a oc; (a'', es') = async_run E a' ocs in (a'', es @ es'))"

section \<open>The host component: \<open>App\<close>\<close>

text \<open>
  The component keeps its state in \<open>useState\<close> cells and in the module-level variable
  \<open>wasmModule\<close>, which is an argument of the model (the worker's variable has the same
  name). A \<open>File\<close> is represented by what \<open>arrayBuffer()\<close> settles to. The settings object
  is a finite map from property names to values. An object URL is represented by the
  buffer of the blob it names. \<open>audioOutputRef\<close> is \<open>None\<close> while no output element is
  mounted, and otherwise holds the element's \<open>src\<close>.
\<close>

record audio_file =
  arrayBuffer :: "thrown + jsval"

record app =
  audioFile :: "audio_file option"
  isProcessing :: bool
  processedAudio :: "jsval option"
  processingProgress :: int
  app_settings :: "string \<rightharpoonup> jsval"
  audioOutputRef :: "jsval option"

definition initial_settings :: "string \<rightharpoonup> jsval" where
  "initial_settings =
     [''filterLength'' \<mapsto> JNum (Fin 512), ''stepSize'' \<mapsto> JNum (Fin 0.05),
      ''showAdvancedSettings'' \<mapsto> JBool False]"

definition read_setting :: "(string \<rightharpoonup> jsval) \<Rightarrow> string \<Rightarrow> jsval" where
  "read_setting s k = (case s k of None \<Rightarrow> JUndefined | Some v \<Rightarrow> v)"

text \<open>
  \<open>handleSettingChange\<close>, applied to an event whose target has the given \<open>name\<close>,
  \<open>value\<close> (always a string for an input element), \<open>type\<close> and \<open>checked\<close>.
\<close>

definition handleSettingChange :: "app \<Rightarrow> string \<Rightarrow> string \<Rightarrow> string \<Rightarrow> bool \<Rightarrow> app" where
  "handleSettingChange st name val ty checked =
     st\<lparr>app_settings :=
          (app_settings st)(name \<mapsto> (if ty = ''checkbox'' then JBool checked else JStr val))\<rparr>"

text \<open>
  What \<open>processAudio\<close> of the component does, in order. The pauses of 100 ms between
  progress updates are not represented. Its \<open>catch\<close> block hands what was thrown to
  \<open>console.error\<close> and reads nothing of it.
\<close>

datatype app_event =
    SetIsProcessing bool
  | SetProcessingProgress int
  | Engine_processAudio jsval jsval
  | SetProcessedAudio jsval
  | SetAudioOutputSrc jsval
  | ConsoleError thrown

definition totalSteps :: nat where
  "totalSteps = 20"

text \<open>
  \<open>Math.min(Math.floor((currentStep / totalSteps) * 100), 99)\<close>. The quotient and the
  product are computed exactly here. In double arithmetic the product is the exact one at
  every step from 0 to 20 but step 11, where it is 55.00000000000001; its floor is the
  same at every step.
\<close>

definition progress_value :: "nat \<Rightarrow> int" where
  "progress_value currentStep = min \<lfloor>(real currentStep / real totalSteps) * 100\<rfloor> 99"

text \<open>\<open>updateProgress\<close>: increments \<open>currentStep\<close> and reports the progress.\<close>

definition updateProgress :: "nat \<Rightarrow> nat \<times> app_event list" where
  "updateProgress currentStep =
     (let currentStep' = currentStep + 1
      in (currentStep', [SetProcessingProgress (progress_value currentStep')]))"

text \<open>\<open>while (currentStep < totalSteps) await updateProgress()\<close>\<close>

function remaining_steps :: "nat \<Rightarrow> nat \<times> app_event list" where
  "remaining_steps currentStep =
     (if currentStep < totalSteps
      then (let (c, es) = updateProgress currentStep;
                (c', es') = remaining_steps c
            in (c', es @ es'))
      else (currentStep, []))"
  by pat_completeness auto
termination
  by (relation "measure (\<lambda>currentStep. totalSteps - currentStep)")
     (auto simp: updateProgress_def Let_def)

declare remaining_steps.simps [simp del]

text \<open>The object literal passed to the engine as its second argument.\<close>

definition engine_argument :: "app \<Rightarrow> jsval" where
  "engine_argument st =
     JObj [(''filterLength'', read_setting (app_settings st) ''filterLength''),
           (''stepSize'', read_setting (app_settings st) ''stepSize'')]"

definition App_processAudio :: "wasm_module option \<Rightarrow> app \<Rightarrow> app_event list" where
  "App_processAudio wasm st =
     (case (audioFile st, wasm) of
        (Some f, Some m) \<Rightarrow>
          [SetIsProcessing True, SetProcessingProgress 0] @
          (case arrayBuffer f of
             Inl err \<Rightarrow> [ConsoleError err]
           | Inr buf \<Rightarrow>
               (let (currentStep, es) = updateProgress 0;
                    arg = engine_argument st
                in es @ [Engine_processAudio buf arg] @
                   (case m buf arg of
                      Inl err \<Rightarrow> [ConsoleError err]
                    | Inr processedBuffer \<Rightarrow>
                        snd (remaining_steps currentStep) @
                        [SetProcessedAudio processedBuffer] @
                        (case audioOutputRef st of
                           None \<Rightarrow> []
                         | Some src \<Rightarrow> [SetAudioOutputSrc processedBuffer]) @
                        [SetProcessingProgress 100]))) @
          [SetIsProcessing False]
      | _ \<Rightarrow> [])"

text \<open>The values passed to \<open>setProcessingProgress\<close>, in order.\<close>

fun progress_updates :: "app_event list \<Rightarrow> int list" where
  "progress_updates [] = []"
| "progress_updates (SetProcessingProgress p # es) = p # progress_updates es"
| "progress_updates (e # es) = progress_updates es"

text \<open>
  The buffer that the engine returns to \<open>processAudio\<close> of the component, when the run gets
  that far: a file is selected, the module is loaded, the file is read and the engine call
  does not throw.
\<close>

definition engine_result :: "wasm_module option \<Rightarrow> app \<Rightarrow> jsval option" where
  "engine_result wasm st =
     (case (audioFile st, wasm) of
        (Some f, Some m) \<Rightarrow>
          (case arrayBuffer f of
             Inl err \<Rightarrow> None
           | Inr buf \<Rightarrow>
               (case m buf (engine_argument st) of
                  Inl err \<Rightarrow> None
                | Inr processedBuffer \<Rightarrow> Some processedBuffer))
      | _ \<Rightarrow> None)"

section \<open>Concrete inputs\<close>

text \<open>
  An engine that returns its input, one that rejects every call, and imported functions
  that pass their argument on and never throw.
\<close>

definition passthrough_module :: wasm_module where
  "passthrough_module preparedAudio s = Inr preparedAudio"

definition rejecting_module :: wasm_module where
  "rejecting_module preparedAudio s = Inl (Message (JStr ''invalid settings''))"



definition passthrough_env :: env where
  "passthrough_env =
     \<lparr>loadWasmModule = Inr (Some passthrough_module),
      prepareAudioForProcessing = Inr,
      prepareAudioForPlayback = Inr,
      transfer_error = (\<lambda>buf. None)\<rparr>"

definition loaded_worker :: worker where
  "loaded_worker = \<lparr>wasmModule = Some passthrough_module\<rparr>"

definition init_request :: event_data where
  "init_request = \<lparr>type = TStr ''init'', data = JUndefined, settings = JUndefined\<rparr>"

definition process_request :: event_data where
  "process_request =
     \<lparr>type = TStr ''process'', data = JBuf [1, 2, 3],
      settings = JObj [(''filterLength'', JNum (Fin 512)), (''stepSize'', JNum (Fin 0.05))]\<rparr>"

definition cancel_request :: event_data where
  "cancel_request = \<lparr>type = TStr ''cancel'', data = JUndefined, settings = JUndefined\<rparr>"

definition selected_app :: app where
  "selected_app =
     \<lparr>audioFile = Some \<lparr>arrayBuffer = Inr (JBuf [1, 2, 3])\<rparr>,
      isProcessing = False,
      processedAudio = None,
      processingProgress = 0,
      app_settings = initial_settings,
      audioOutputRef = None\<rparr>"


text \<open>A worker with one job running: a \<open>processAudio\<close> suspended at its \<open>await\<close>.\<close>

definition busy_worker :: async_worker where
  "busy_worker =
     \<lparr>variables = loaded_worker, awaiting = [Awaiting_processAudio (Inr (JBuf [1, 2, 3]))]\<rparr>"

section \<open>Audio utilities\<close>

text \<open>
  A \<open>Float32Array\<close> is the list of its elements. The conversion of a stored value to single
  precision is not represented; it keeps \<open>NaN\<close> and the infinities as they are.
\<close>

text \<open>
  The loop of \<open>calculateRMS\<close>, \<open>sum += buffer[i] * buffer[i]\<close>, with the running sum as
  the first argument.
\<close>

fun calculateRMS_loop :: "number \<Rightarrow> number list \<Rightarrow> number" where
  "calculateRMS_loop s [] = s"
| "calculateRMS_loop s (x # xs) = calculateRMS_loop (js_add s (js_mul x x)) xs"

definition calculateRMS :: "number list \<Rightarrow> number" where
  "calculateRMS buffer =
     js_sqrt (js_div (calculateRMS_loop (Fin 0) buffer) (Fin (real (length buffer))))"

text \<open>
  \<open>normalizeAudio(buffer, targetRMS = 0.3)\<close>: the default applies when the argument is
  left out (\<open>None\<close>).
\<close>

definition normalizeAudio_gain :: "number list \<Rightarrow> number option \<Rightarrow> number" where
  "normalizeAudio_gain buffer targetRMS =
     (let target = (case targetRMS of None \<Rightarrow> Fin 0.3 | Some t \<Rightarrow> t);
          currentRMS = calculateRMS buffer
      in js_div target currentRMS)"

definition normalizeAudio :: "number list \<Rightarrow> number option \<Rightarrow> number list" where
  "normalizeAudio buffer targetRMS =
     (let gain = normalizeAudio_gain buffer targetRMS
      in map (\<lambda>x. js_mul x gain) buffer)"

text \<open>The values that a sum of squares can take: everything but a negative value.\<close>

fun not_negative :: "number \<Rightarrow> bool" where
  "not_negative (Fin a) = (0 \<le> a)"
| "not_negative PInf = True"
| "not_negative NInf = False"
| "not_negative NaN = True"

section \<open>The engine: filter core and chunked scheduler\<close>

text \<open>
  The source of the module \<open>../wasm/echo-cancellation.js\<close>, whose \<open>processAudio\<close> the
  worker and the component call, is not available. The definitions of this section are
  written from the specification (its sections 3, 4.1 and 4.2) instead.
\<close>

text \<open>Modelled from the spec: the error taxonomy of the engine (section 7).\<close>

datatype engine_error = ValidationError | NotInitialized | DecodeError | DivergenceError | Busy

text \<open>
  Modelled from the spec: the negation of a number, for the subtraction of step 3 of
  \<open>processSample\<close>, which the utilities above do not need.
\<close>

fun js_neg :: "number \<Rightarrow> number" where
  "js_neg (Fin a) = Fin (- a)"
| "js_neg PInf = NInf"
| "js_neg NInf = PInf"
| "js_neg NaN = NaN"

text \<open>Modelled from the spec: the subtraction \<open>x - y_hat\<close> (section 4.1, step 3).\<close>

definition js_sub :: "number \<Rightarrow> number \<Rightarrow> number" where
  "js_sub x y = js_add x (js_neg y)"

text \<open>
  Modelled from the spec: the clamp to \<open>[-1.0, 1.0]\<close> (section 4.1, step 3). An infinity is
  clamped to the bound on its side; \<open>NaN\<close> stays \<open>NaN\<close>.
\<close>

fun clamp :: "number \<Rightarrow> number" where
  "clamp (Fin a) = Fin (max (- 1) (min 1 a))"
| "clamp PInf = Fin 1"
| "clamp NInf = Fin (- 1)"
| "clamp NaN = NaN"

text \<open>
  Modelled from the spec: \<open>AudioSignal\<close> (section 3). The channel count is always 1 and is
  left out.
\<close>

record AudioSignal =
  sampleRate :: nat
  samples :: "number list"

text \<open>
  Modelled from the spec: \<open>ProcessingSettings\<close> (section 3). The regularization constant is
  fixed inside the engine and is part of its configuration below.
\<close>

record ProcessingSettings =
  filterLength :: int
  stepSize :: number

text \<open>Modelled from the spec: a step size in \<open>(0.0, 0.2]\<close> (sections 3 and 4.1).\<close>

fun stepSize_in_range :: "number \<Rightarrow> bool" where
  "stepSize_in_range (Fin r) = (0 < r \<and> r \<le> 0.2)"
| "stepSize_in_range x = False"

text \<open>
  Modelled from the spec: valid settings (section 3), a filter length in \<open>[128, 2048]\<close> that
  is a multiple of 128 and a step size in range.
\<close>

definition valid_settings :: "ProcessingSettings \<Rightarrow> bool" where
  "valid_settings s =
     (128 \<le> filterLength s \<and> filterLength s \<le> 2048 \<and> filterLength s mod 128 = 0 \<and>
      stepSize_in_range (stepSize s))"

text \<open>
  Modelled from the spec: \<open>FilterState\<close> (section 3) with the parameters given to
  \<open>reset\<close>. The history is kept oldest first.
\<close>

record FilterState =
  coefficients :: "number list"
  history :: "number list"
  fs_stepSize :: number
  fs_epsilon :: number

text \<open>Modelled from the spec: \<open>reset(filterLength, stepSize, epsilon)\<close> (section 4.1).\<close>

definition reset :: "int \<Rightarrow> number \<Rightarrow> number \<Rightarrow> engine_error + FilterState" where
  "reset fl ss eps =
     (if fl < 128 \<or> 2048 < fl \<or> \<not> stepSize_in_range ss then Inl ValidationError
      else Inr \<lparr>coefficients = replicate (nat fl) (Fin 0),
                history = replicate (nat fl) (Fin 0),
                fs_stepSize = ss,
                fs_epsilon = eps\<rparr>)"

text \<open>Modelled from the spec: the dot product of two vectors (section 4.1, steps 2 and 4).\<close>

fun dot :: "number list \<Rightarrow> number list \<Rightarrow> number" where
  "dot (c # cs) (h # hs) = js_add (js_mul c h) (dot cs hs)"
| "dot cs hs = Fin 0"

text \<open>
  Modelled from the spec: \<open>processSample(x)\<close> (section 4.1), steps 1 to 7 and the divergence
  check: when the output or a new coefficient is not finite, the core signals
  \<open>DivergenceError\<close> and the state is not updated.
\<close>

definition processSample :: "FilterState \<Rightarrow> number \<Rightarrow> engine_error + (FilterState \<times> number)" where
  "processSample fs x =
     (let h = history fs;
          y_hat = dot (coefficients fs) h;
          e = clamp (js_sub x y_hat);
          mu_n = js_div (fs_stepSize fs) (js_add (dot h h) (fs_epsilon fs));
          coefficients' = map (\<lambda>(c, hi). js_add c (js_mul (js_mul mu_n e) hi))
                              (zip (coefficients fs) h)
      in if \<not> is_finite e \<or> \<not> list_all is_finite coefficients' then Inl DivergenceError
         else Inr (fs\<lparr>coefficients := coefficients', history := tl h @ [x]\<rparr>, e))"

text \<open>
  Modelled from the spec: one chunk, the samples of a slice fed through the filter in order
  with the state carried from sample to sample (section 3, invariant; section 4.2).
\<close>

fun process_samples ::
    "FilterState \<Rightarrow> number list \<Rightarrow> engine_error + (FilterState \<times> number list)" where
  "process_samples fs [] = Inr (fs, [])"
| "process_samples fs (x # xs) =
     (case processSample fs x of
        Inl err \<Rightarrow> Inl err
      | Inr (fs', e) \<Rightarrow>
          (case process_samples fs' xs of
             Inl err \<Rightarrow> Inl err
           | Inr (fs'', es) \<Rightarrow> Inr (fs'', e # es)))"

text \<open>Modelled from the spec: the status of a job (section 3).\<close>

datatype job_status = Pending | Running | Completed | Failed | Cancelled

text \<open>
  Modelled from the spec: \<open>ProcessingJob\<close> (section 3), with what the scheduler keeps for a
  job while it runs: the filter state it owns (\<open>None\<close> once destroyed), the number of
  samples processed, the outputs so far, and whether cancellation has been requested.
\<close>

record ProcessingJob =
  job_id :: nat
  input :: AudioSignal
  job_settings :: ProcessingSettings
  status :: job_status
  progressPercent :: nat
  result :: "(engine_error + AudioSignal) option"
  filterState :: "FilterState option"
  samplesProcessed :: nat
  outputs :: "number list"
  cancelRequested :: bool

text \<open>
  Modelled from the spec: an engine instance (sections 4.2 and 5), with its single slot for
  a job, the size of a chunk and the regularization constant.
\<close>

record engine =
  chunkSize :: nat
  epsilon :: real
  slot :: "ProcessingJob option"
  nextId :: nat

text \<open>Modelled from the spec: a freshly initialized engine (section 8): no job yet.\<close>

definition fresh_engine :: "nat \<Rightarrow> real \<Rightarrow> engine" where
  "fresh_engine n eps = \<lparr>chunkSize = n, epsilon = eps, slot = None, nextId = 0\<rparr>"

text \<open>Modelled from the spec: whether the single slot holds a running job (section 5).\<close>

definition job_running :: "engine \<Rightarrow> bool" where
  "job_running e = (case slot e of None \<Rightarrow> False | Some j \<Rightarrow> status j = Running)"

text \<open>
  Modelled from the spec: the job as \<open>submit\<close> creates it (sections 3 and 4.2): \<open>Pending\<close>,
  progress 0, no result, with a filter state of its own.
\<close>

definition new_job :: "nat \<Rightarrow> AudioSignal \<Rightarrow> ProcessingSettings \<Rightarrow> FilterState \<Rightarrow> ProcessingJob" where
  "new_job jid signal s fs =
     \<lparr>job_id = jid, input = signal, job_settings = s, status = Pending, progressPercent = 0,
      result = None, filterState = Some fs, samplesProcessed = 0, outputs = [],
      cancelRequested = False\<rparr>"

text \<open>
  Modelled from the spec: the beginning of the processing (section 4.2). The job is
  \<open>Running\<close>, or, for an empty signal, completed at once with an empty result and progress
  100, the filter not invoked.
\<close>

definition begin_job :: "ProcessingJob \<Rightarrow> ProcessingJob" where
  "begin_job j =
     (if samples (input j) = []
      then j\<lparr>status := Completed, progressPercent := 100,
              result := Some (Inr \<lparr>sampleRate = sampleRate (input j), samples = []\<rparr>),
              filterState := None\<rparr>
      else j\<lparr>status := Running\<rparr>)"

text \<open>
  Modelled from the spec: \<open>submit(signal, settings)\<close> (section 4.2). \<open>Busy\<close> while a job is
  running; then the settings are validated; then the job is created with a filter state
  from \<open>reset\<close>, and processing begins.
\<close>

definition submit ::
    "engine \<Rightarrow> AudioSignal \<Rightarrow> ProcessingSettings \<Rightarrow> engine_error + (nat \<times> engine)" where
  "submit e signal s =
     (if job_running e then Inl Busy
      else if \<not> valid_settings s then Inl ValidationError
      else (case reset (filterLength s) (stepSize s) (Fin (epsilon e)) of
              Inl err \<Rightarrow> Inl err
            | Inr fs \<Rightarrow>
                Inr (nextId e,
                     e\<lparr>slot := Some (begin_job (new_job (nextId e) signal s fs)),
                       nextId := nextId e + 1\<rparr>)))"

text \<open>
  Modelled from the spec: one turn of the chunk loop for a running job (section 4.2). A
  requested cancellation takes effect here, at the chunk boundary: the job is \<open>Cancelled\<close>,
  without a result, and its filter state is discarded. Otherwise the next chunk is
  processed. A divergence fails the job, keeps the last progress and discards the filter
  state. After the chunk the progress is \<open>floor(100 * samplesProcessed / totalSamples)\<close>,
  capped at 99, until all samples are processed; then the outputs are assembled into the
  result and the job is \<open>Completed\<close> with progress 100. A job that is not running is left
  as it is.
\<close>

definition step_job :: "nat \<Rightarrow> ProcessingJob \<Rightarrow> ProcessingJob" where
  "step_job n j =
     (case (status j, filterState j) of
        (Running, Some fs) \<Rightarrow>
          if cancelRequested j then j\<lparr>status := Cancelled, filterState := None\<rparr>
          else
            (let totalSamples = length (samples (input j));
                 chunk = take n (drop (samplesProcessed j) (samples (input j)))
             in case process_samples fs chunk of
                  Inl err \<Rightarrow> j\<lparr>status := Failed, result := Some (Inl err), filterState := None\<rparr>
                | Inr (fs', es) \<Rightarrow>
                    (let processed = samplesProcessed j + length chunk;
                         out = outputs j @ es
                     in if totalSamples \<le> processed
                        then j\<lparr>status := Completed, progressPercent := 100,
                                result := Some (Inr \<lparr>sampleRate = sampleRate (input j),
                                                     samples = out\<rparr>),
                                filterState := None, samplesProcessed := processed,
                                outputs := out\<rparr>
                        else j\<lparr>progressPercent := min 99 (100 * processed div totalSamples),
                                filterState := Some fs', samplesProcessed := processed,
                                outputs := out\<rparr>))
      | _ \<Rightarrow> j)"

text \<open>Modelled from the spec: one turn of the chunk loop of an engine, on the job in its slot.\<close>

definition step :: "engine \<Rightarrow> engine" where
  "step e = (case slot e of None \<Rightarrow> e | Some j \<Rightarrow> e\<lparr>slot := Some (step_job (chunkSize e) j)\<rparr>)"

text \<open>Modelled from the spec: \<open>cancel(jobId)\<close> (section 4.2), a request on the running job.\<close>

definition cancel :: "engine \<Rightarrow> nat \<Rightarrow> engine" where
  "cancel e jid =
     (case slot e of
        None \<Rightarrow> e
      | Some j \<Rightarrow>
          if status j = Running \<and> job_id j = jid
          then e\<lparr>slot := Some (j\<lparr>cancelRequested := True\<rparr>)\<rparr>
          else e)"

text \<open>
  Modelled from the spec: the number of fixed-size chunks of a signal (section 4.2),
  \<open>ceil(totalSamples / chunkSize)\<close>.
\<close>

definition num_chunks :: "nat \<Rightarrow> nat \<Rightarrow> nat" where
  "num_chunks totalSamples n = (totalSamples + n - 1) div n"

text \<open>
  Modelled from the spec: the job in the slot run to its end without a cancellation: the
  chunk loop takes as many turns as the signal has chunks.
\<close>

definition run_to_completion :: "engine \<Rightarrow> engine" where
  "run_to_completion e =
     (case slot e of
        None \<Rightarrow> e
      | Some j \<Rightarrow> (step ^^ num_chunks (length (samples (input j))) (chunkSize e)) e)"

text \<open>
  Modelled from the spec: what the host gets for a signal and settings handed to an engine:
  the error of \<open>submit\<close>, or the final status and result of the job in the slot.
\<close>

definition process_signal ::
    "engine \<Rightarrow> AudioSignal \<Rightarrow> ProcessingSettings \<Rightarrow>
     engine_error + (job_status \<times> (engine_error + AudioSignal) option) option" where
  "process_signal e signal s =
     (case submit e signal s of
        Inl err \<Rightarrow> Inl err
      | Inr (jid, e') \<Rightarrow>
          Inr (map_option (\<lambda>j. (status j, result j)) (slot (run_to_completion e'))))"

text \<open>
  Modelled from the spec: the engine after a sequence of jobs, each run to its end before
  the next is submitted (section 8, determinism); a submission that fails leaves the engine
  as it was.
\<close>

fun run_jobs :: "engine \<Rightarrow> (AudioSignal \<times> ProcessingSettings) list \<Rightarrow> engine" where
  "run_jobs e [] = e"
| "run_jobs e ((signal, s) # js) =
     (case submit e signal s of
        Inl err \<Rightarrow> run_jobs e js
      | Inr (jid, e') \<Rightarrow> run_jobs (run_to_completion e') js)"

subsection \<open>Invariants of the modelled engine\<close>

text \<open>
  What holds of a job between two turns of the chunk loop, when no cancellation has been
  requested. While it runs, it owns a filter state, has samples left, and has one output
  for every sample processed. When it has ended, it is completed, with a result that holds
  the outputs, one for every sample of the input, or it has failed with a divergence.
\<close>

definition running_inv :: "ProcessingJob \<Rightarrow> bool" where
  "running_inv j =
     (filterState j \<noteq> None \<and> \<not> cancelRequested j \<and>
      samplesProcessed j < length (samples (input j)) \<and>
      length (outputs j) = samplesProcessed j)"

definition finished_inv :: "ProcessingJob \<Rightarrow> bool" where
  "finished_inv j =
     (status j = Completed \<and>
      result j = Some (Inr \<lparr>sampleRate = sampleRate (input j), samples = outputs j\<rparr>) \<and>
      length (outputs j) = length (samples (input j)) \<or>
      status j = Failed \<and> result j = Some (Inl DivergenceError))"

definition job_inv :: "ProcessingJob \<Rightarrow> bool" where
  "job_inv j = (if status j = Running then running_inv j else finished_inv j)"

text \<open>
  A filter state in which every number is finite and the regularization constant is
  positive, and a job whose input and filter state are so.
\<close>

fun positive :: "number \<Rightarrow> bool" where
  "positive (Fin a) = (0 < a)"
| "positive x = False"

definition finite_state :: "FilterState \<Rightarrow> bool" where
  "finite_state fs =
     (list_all is_finite (coefficients fs) \<and> list_all is_finite (history fs) \<and>
      is_finite (fs_stepSize fs) \<and> positive (fs_epsilon fs))"

definition finite_job :: "ProcessingJob \<Rightarrow> bool" where
  "finite_job j =
     (list_all is_finite (samples (input j)) \<and>
      (case filterState j of None \<Rightarrow> True | Some fs \<Rightarrow> finite_state fs) \<and>
      status j \<noteq> Failed)"

text \<open>
  The job that \<open>submit\<close> puts into the slot for valid settings, and that job after the
  turns of the chunk loop that \<open>run_to_completion\<close> takes.
\<close>

definition submitted_job :: "engine \<Rightarrow> AudioSignal \<Rightarrow> ProcessingSettings \<Rightarrow> ProcessingJob" where
  "submitted_job e signal s =
     begin_job (new_job (nextId e) signal s
       \<lparr>coefficients = replicate (nat (filterLength s)) (Fin 0),
        history = replicate (nat (filterLength s)) (Fin 0),
        fs_stepSize = stepSize s,
        fs_epsilon = Fin (epsilon e)\<rparr>)"

definition finished_job :: "engine \<Rightarrow> AudioSignal \<Rightarrow> ProcessingSettings \<Rightarrow> ProcessingJob" where
  "finished_job e signal s =
     (step_job (chunkSize e) ^^ num_chunks (length (samples signal)) (chunkSize e))
       (submitted_job e signal s)"

text \<open>An engine, settings and signals to try the engine on.\<close>

definition small_engine :: engine where
  "small_engine = fresh_engine 2 0.001"

definition default_settings :: ProcessingSettings where
  "default_settings = \<lparr>filterLength = 512, stepSize = Fin 0.05\<rparr>"

definition short_signal :: AudioSignal where
  "short_signal = \<lparr>sampleRate = 16000, samples = [Fin 0.5, Fin (- 0.25), Fin 0]\<rparr>"

definition other_signal :: AudioSignal where
  "other_signal = \<lparr>sampleRate = 8000, samples = [Fin 1, Fin 1, Fin 1, Fin 1, Fin 1]\<rparr>"

definition running_engine :: engine where
  "running_engine =
     small_engine\<lparr>slot := Some (submitted_job small_engine other_signal default_settings),
                    nextId := 1\<rparr>"

section \<open>Properties of the worker\<close>

lemma posted_processAudio_cases:
  "posted (processAudio E w d s) = [] \<or>
   (\<exists>err. posted (processAudio E w d s) =
      [[(''type'', JStr ''processed''), (''success'', JBool False), (''error'', err)]]) \<or>
   (\<exists>b. posted (processAudio E w d s) =
      [[(''type'', JStr ''processed''), (''success'', JBool True), (''data'', b)]])"
proof -
  have c: "posted (catch_processAudio t) = [] \<or>
      (\<exists>err. posted (catch_processAudio t) =
         [[(''type'', JStr ''processed''), (''success'', JBool False), (''error'', err)]])"
    for t
    by (cases t) (simp_all add: processed_failure_def)
  show ?thesis
  proof (cases "wasmModule w")
    case None
    then show ?thesis
      by (simp add: processAudio_def processed_failure_def)
  next
    case (Some m)
    show ?thesis
    proof (cases "prepareAudioForProcessing E d")
      case (Inl t)
      with Some show ?thesis
        using c [of t] by (auto simp: processAudio_def)
    next
      case p: (Inr preparedAudio)
      show ?thesis
      proof (cases "m preparedAudio s")
        case (Inl t)
        with Some p show ?thesis
          using c [of t] by (auto simp: processAudio_def)
      next
        case q: (Inr processed)
        show ?thesis
        proof (cases "prepareAudioForPlayback E processed")
          case (Inl t)
          with Some p q show ?thesis
            using c [of t] by (auto simp: processAudio_def)
        next
          case (Inr playback)
          with Some p q show ?thesis
            by (cases "transfer_error E playback")
               (simp_all add: processAudio_def processed_failure_def processed_success_def)
        qed
      qed
    qed
  qed
qed


lemma posted_append: "posted (xs @ ys) = posted xs @ posted ys"
  by (induction xs rule: posted.induct) simp_all

lemma posted_initWasmModule:
  "\<forall>m \<in> set (posted (snd (initWasmModule E w))). \<not> carries_jobId m"
  by (simp add: initWasmModule_def initWasmModule_resume_def carries_jobId_def has_field_def
      split: sum.split thrown.split)

lemma posted_handler_no_jobId:
  "\<forall>m \<in> set (posted (snd (handler E w ev))). \<not> carries_jobId m"
proof -
  have "\<forall>m \<in> set (posted (processAudio E w d s)). \<not> carries_jobId m" for d s
    using posted_processAudio_cases [of E w d s]
    by (auto simp: carries_jobId_def has_field_def)
  then show ?thesis
    using posted_initWasmModule [of E w]
    by (simp add: handler_def unknown_type_def carries_jobId_def has_field_def)
qed

lemma posted_listener_no_jobId:
  "\<forall>m \<in> set (posted (snd (listener E w msg))). \<not> carries_jobId m"
  using posted_handler_no_jobId [of E w] by (cases msg) (simp_all add: listener_def)

text \<open>
  The part of \<open>processAudio\<close> before the \<open>await\<close> followed by the part after it is the
  whole function.
\<close>

lemma processAudio_begin_resume:
  "processAudio E w d s =
     fst (processAudio_begin E w d s) @
     (case snd (processAudio_begin E w d s) of
        None \<Rightarrow> []
      | Some awaited \<Rightarrow> processAudio_resume E awaited)"
  by (simp add: processAudio_def processAudio_begin_def processAudio_resume_def
      split: option.split sum.split)

text \<open>
  A message handled to its end, as \<open>handler\<close> does it, is its delivery followed at once by
  the resumption of the call that the delivery has suspended, if it has suspended one.
\<close>

lemma handler_deliver_resume:
  "handler E (variables a) ev =
     (case deliver E a (Some ev) of
        (a1, es1) \<Rightarrow>
          if length (awaiting a1) = length (awaiting a) then (variables a1, es1)
          else (case resume E a1 (length (awaiting a)) of
                  (a2, es2) \<Rightarrow> (variables a2, es1 @ es2)))"
proof (cases "type ev = TStr ''init''")
  case True
  then show ?thesis
    by (simp add: handler_def deliver_def resume_def initWasmModule_def split: prod.split)
next
  case False
  show ?thesis
  proof (cases "type ev = TStr ''process''")
    case True
    show ?thesis
    proof (cases "processAudio_begin E (variables a) (data ev) (settings ev)")
      case (Pair es k)
      with True show ?thesis
        using processAudio_begin_resume [of E "variables a" "data ev" "settings ev"]
        by (cases k) (simp_all add: handler_def deliver_def resume_def)
    qed
  next
    case f: False
    with False show ?thesis
      by (simp add: handler_def deliver_def)
  qed
qed

text \<open>
  C5. When no module is loaded, a \<open>process\<close> message is answered with one \<open>processed\<close>
  message with \<open>success: false\<close> and the error text \<open>WASM module not initialized\<close>; nothing
  of the imported module is called, so the samples are not touched, and the state of the
  worker stays as it was.
\<close>

theorem process_rejected_when_not_initialized:
  assumes "wasmModule w = None" and "type ev = TStr ''process''"
  shows "handler E w ev =
           (w, [PostMessage [(''type'', JStr ''processed''), (''success'', JBool False),
                             (''error'', JStr ''WASM module not initialized'')] []]) \<and>
         filter is_call (snd (handler E w ev)) = []"
  using assms by (simp add: handler_def processAudio_def processed_failure_def)

theorem process_rejected_when_not_initialized_witness:
  "wasmModule (fst worker_start) = None \<and> type process_request = TStr ''process'' \<and>
   handler passthrough_env (fst worker_start) process_request =
     (fst worker_start,
      [PostMessage [(''type'', JStr ''processed''), (''success'', JBool False),
                    (''error'', JStr ''WASM module not initialized'')] []]) \<and>
   filter is_call (snd (handler passthrough_env (fst worker_start) process_request)) = []"
proof -
  have a: "wasmModule (fst worker_start) = None"
    by (simp add: worker_start_def)
  have b: "type process_request = TStr ''process''"
    by (simp add: process_request_def)
  show ?thesis
    using a b process_rejected_when_not_initialized [OF a b, of passthrough_env] by simp
qed

text \<open>
  C10. A message whose \<open>type\<close> is neither the string \<open>init\<close> nor the string \<open>process\<close> is
  answered with exactly one message, of type \<open>error\<close>, whose text names the type received;
  nothing is called and the state is unchanged. A \<open>cancel\<close> message is such a message.
\<close>

theorem unknown_type_answered_with_error:
  assumes "type ev \<noteq> TStr ''init''" and "type ev \<noteq> TStr ''process''"
  shows "handler E w ev =
           (w, [PostMessage [(''type'', JStr ''error''),
                             (''message'',
                              JStr (''Unknown message type: '' @ type_text (type ev)))] []])"
  using assms by (simp add: handler_def unknown_type_def)

theorem unknown_type_answered_with_error_witness:
  "type cancel_request \<noteq> TStr ''init'' \<and> type cancel_request \<noteq> TStr ''process'' \<and>
   handler passthrough_env loaded_worker cancel_request =
     (loaded_worker,
      [PostMessage [(''type'', JStr ''error''),
                    (''message'', JStr ''Unknown message type: cancel'')] []])"
proof -
  have a: "type cancel_request \<noteq> TStr ''init''"
    and b: "type cancel_request \<noteq> TStr ''process''"
    by (simp_all add: cancel_request_def)
  have c: "type_text (type cancel_request) = ''cancel''"
    by (simp add: cancel_request_def)
  show ?thesis
    using a b c unknown_type_answered_with_error [OF a b, of passthrough_env loaded_worker]
    by simp
qed

text \<open>
  C3, as the specification states it, fails: after \<open>init\<close>, the answer to a \<open>process\<close>
  request is a message with the properties \<open>type\<close>, \<open>success\<close> and \<open>data\<close>, and no
  \<open>jobId\<close>.
\<close>

theorem messages_carry_jobId_counterexample:
  "posted (snd (run passthrough_env (fst worker_start) [Some init_request, Some process_request])) =
     [[(''type'', JStr ''init''), (''success'', JBool True)],
      [(''type'', JStr ''processed''), (''success'', JBool True), (''data'', JBuf [1, 2, 3])]] \<and>
   map carries_jobId
     (posted (snd (run passthrough_env (fst worker_start) [Some init_request, Some process_request]))) =
     [False, False]"
  by (simp add: worker_start_def init_request_def process_request_def passthrough_env_def
      passthrough_module_def listener_def handler_def initWasmModule_def
      initWasmModule_resume_def processAudio_def processed_success_def carries_jobId_def
      has_field_def)

text \<open>
  C3, amended. No message that the worker posts carries a \<open>jobId\<close>: neither the \<open>ready\<close>
  message of the start, nor any answer to any sequence of incoming messages. (The listener
  reads \<open>type\<close>, \<open>data\<close> and \<open>settings\<close> of an incoming message and nothing else, which is
  how \<open>event_data\<close> is defined.)
\<close>

theorem no_posted_message_carries_jobId:
  "(\<forall>m \<in> set (posted (snd worker_start)). \<not> carries_jobId m) \<and>
   (\<forall>m \<in> set (posted (snd (run E w msgs))). \<not> carries_jobId m)"
proof
  show "\<forall>m \<in> set (posted (snd worker_start)). \<not> carries_jobId m"
    by (simp add: worker_start_def carries_jobId_def has_field_def)
  show "\<forall>m \<in> set (posted (snd (run E w msgs))). \<not> carries_jobId m"
  proof (induction msgs arbitrary: w)
    case Nil
    show ?case by simp
  next
    case (Cons msg msgs)
    obtain w' es where h: "listener E w msg = (w', es)"
      by (cases "listener E w msg")
    obtain w'' es' where r: "run E w' msgs = (w'', es')"
      by (cases "run E w' msgs")
    have "\<forall>m \<in> set (posted es). \<not> carries_jobId m"
      using posted_listener_no_jobId [of E w msg] h by simp
    moreover have "\<forall>m \<in> set (posted es'). \<not> carries_jobId m"
      using Cons.IH [of w'] r by simp
    ultimately show ?case
      using h r by (auto simp: posted_append)
  qed
qed

theorem no_posted_message_carries_jobId_witness:
  "list_all (\<lambda>m. \<not> carries_jobId m) (posted (snd worker_start)) \<and>
   list_all (\<lambda>m. \<not> carries_jobId m)
     (posted (snd (run passthrough_env loaded_worker
        [Some process_request, None, Some cancel_request])))"
  using no_posted_message_carries_jobId
          [of passthrough_env loaded_worker "[Some process_request, None, Some cancel_request]"]
  by (simp add: list_all_iff)

text \<open>
  C4, as the specification states it, fails. A job is running: \<open>processAudio\<close> has called
  the engine and is suspended at its \<open>await\<close>. A \<open>cancel\<close> message that arrives now is
  answered with an \<open>error\<close> message and leaves the worker as it was; when the engine call
  has settled, the job posts its result, complete and with \<open>success: true\<close>.
\<close>

theorem cancel_running_job_counterexample:
  "processAudio_begin passthrough_env loaded_worker (JBuf [1, 2, 3]) JUndefined =
     ([Call_prepareAudioForProcessing (JBuf [1, 2, 3]),
       Call_processAudio (JBuf [1, 2, 3]) JUndefined],
      Some (Inr (JBuf [1, 2, 3]))) \<and>
   handler passthrough_env loaded_worker cancel_request =
     (loaded_worker,
      [PostMessage [(''type'', JStr ''error''),
                    (''message'', JStr ''Unknown message type: cancel'')] []]) \<and>
   processAudio_resume passthrough_env (Inr (JBuf [1, 2, 3])) =
     [Call_prepareAudioForPlayback (JBuf [1, 2, 3]),
      PostMessage [(''type'', JStr ''processed''), (''success'', JBool True),
                   (''data'', JBuf [1, 2, 3])] [JBuf [1, 2, 3]]]"
  by (simp add: processAudio_begin_def processAudio_resume_def passthrough_env_def
      loaded_worker_def passthrough_module_def cancel_request_def handler_def
      unknown_type_def processed_success_def)

text \<open>
  C4, amended. The worker has no cancellation. A message of type \<open>cancel\<close> is answered with
  one \<open>error\<close> message \<open>Unknown message type: cancel\<close>. It changes neither the variable of
  the worker nor any call suspended at its \<open>await\<close>, so that everything that happens after
  it, messages delivered and suspended calls resumed in any order, has the effects it would
  have had without it. In particular a job that is running when the message arrives, and
  whose engine call succeeds and whose result can be prepared and transferred, posts its
  \<open>processed\<close> message with \<open>success: true\<close> and the complete data when it resumes.
\<close>

theorem cancel_is_not_handled:
  "deliver E a (Some \<lparr>type = TStr ''cancel'', data = d, settings = s\<rparr>) =
     (a, [PostMessage [(''type'', JStr ''error''),
                       (''message'', JStr ''Unknown message type: cancel'')] []]) \<and>
   async_run E a (Deliver (Some \<lparr>type = TStr ''cancel'', data = d, settings = s\<rparr>) # ocs) =
     (fst (async_run E a ocs),
      PostMessage [(''type'', JStr ''error''),
                   (''message'', JStr ''Unknown message type: cancel'')] [] #
      snd (async_run E a ocs)) \<and>
   (i < length (awaiting a) \<and> awaiting a ! i = Awaiting_processAudio (Inr processed) \<and>
    prepareAudioForPlayback E processed = Inr playback \<and>
    transfer_error E playback = None \<longrightarrow>
      snd (async_run E a
             [Deliver (Some \<lparr>type = TStr ''cancel'', data = d, settings = s\<rparr>), Resume i]) =
        [PostMessage [(''type'', JStr ''error''),
                      (''message'', JStr ''Unknown message type: cancel'')] [],
         Call_prepareAudioForPlayback processed,
         PostMessage [(''type'', JStr ''processed''), (''success'', JBool True),
                      (''data'', playback)] [playback]])"
proof -
  have 1: "deliver E a (Some \<lparr>type = TStr ''cancel'', data = d, settings = s\<rparr>) =
     (a, [PostMessage [(''type'', JStr ''error''),
                       (''message'', JStr ''Unknown message type: cancel'')] []])"
    by (simp add: deliver_def unknown_type_def)
  have 2: "snd (resume E a i) =
        [Call_prepareAudioForPlayback processed,
         PostMessage [(''type'', JStr ''processed''), (''success'', JBool True),
                      (''data'', playback)] [playback]]"
    if "i < length (awaiting a)"
      and "awaiting a ! i = Awaiting_processAudio (Inr processed)"
      and "prepareAudioForPlayback E processed = Inr playback"
      and "transfer_error E playback = None"
    using that by (simp add: resume_def processAudio_resume_def processed_success_def)
  have 3: "snd (async_run E a
             [Deliver (Some \<lparr>type = TStr ''cancel'', data = d, settings = s\<rparr>), Resume i]) =
        [PostMessage [(''type'', JStr ''error''),
                      (''message'', JStr ''Unknown message type: cancel'')] [],
         Call_prepareAudioForPlayback processed,
         PostMessage [(''type'', JStr ''processed''), (''success'', JBool True),
                      (''data'', playback)] [playback]]"
    if "i < length (awaiting a)"
      and "awaiting a ! i = Awaiting_processAudio (Inr processed)"
      and "prepareAudioForPlayback E processed = Inr playback"
      and "transfer_error E playback = None"
    using 2 [OF that] by (cases "resume E a i") (simp add: 1)
  have 4: "async_run E a
        (Deliver (Some \<lparr>type = TStr ''cancel'', data = d, settings = s\<rparr>) # ocs) =
     (fst (async_run E a ocs),
      PostMessage [(''type'', JStr ''error''),
                   (''message'', JStr ''Unknown message type: cancel'')] [] #
      snd (async_run E a ocs))"
    by (cases "async_run E a ocs") (simp add: 1)
  show ?thesis
    using 1 3 4 by blast
qed

theorem cancel_is_not_handled_witness:
  "0 < length (awaiting busy_worker) \<and>
   awaiting busy_worker ! 0 = Awaiting_processAudio (Inr (JBuf [1, 2, 3])) \<and>
   prepareAudioForPlayback passthrough_env (JBuf [1, 2, 3]) = Inr (JBuf [1, 2, 3]) \<and>
   transfer_error passthrough_env (JBuf [1, 2, 3]) = None \<and>
   snd (async_run passthrough_env busy_worker [Deliver (Some cancel_request), Resume 0]) =
     [PostMessage [(''type'', JStr ''error''),
                   (''message'', JStr ''Unknown message type: cancel'')] [],
      Call_prepareAudioForPlayback (JBuf [1, 2, 3]),
      PostMessage [(''type'', JStr ''processed''), (''success'', JBool True),
                   (''data'', JBuf [1, 2, 3])] [JBuf [1, 2, 3]]]"
proof -
  have a: "0 < length (awaiting busy_worker)"
    "awaiting busy_worker ! 0 = Awaiting_processAudio (Inr (JBuf [1, 2, 3]))"
    by (simp_all add: busy_worker_def)
  have b: "prepareAudioForPlayback passthrough_env (JBuf [1, 2, 3]) = Inr (JBuf [1, 2, 3])"
    "transfer_error passthrough_env (JBuf [1, 2, 3]) = None"
    by (simp_all add: passthrough_env_def)
  have c: "cancel_request = \<lparr>type = TStr ''cancel'', data = JUndefined, settings = JUndefined\<rparr>"
    by (simp add: cancel_request_def)
  show ?thesis
    using a b
      cancel_is_not_handled [of passthrough_env busy_worker JUndefined JUndefined "[]" 0
        "JBuf [1, 2, 3]" "JBuf [1, 2, 3]"]
    unfolding c by blast
qed

section \<open>Properties of the host component\<close>

lemma progress_value_eq: "progress_value k = min (5 * int k) 99"
proof -
  have "(real k / real totalSteps) * 100 = of_int (5 * int k)"
    by (simp add: totalSteps_def)
  then have "\<lfloor>(real k / real totalSteps) * 100\<rfloor> = 5 * int k"
    by (simp only: floor_of_int)
  then show ?thesis by (simp add: progress_value_def)
qed

lemma remaining_steps_eq:
  "c \<le> totalSteps \<Longrightarrow>
   remaining_steps c =
     (totalSteps, map (\<lambda>k. SetProcessingProgress (progress_value k)) [Suc c..<Suc totalSteps])"
proof (induction c rule: remaining_steps.induct)
  case (1 c)
  show ?case
  proof (cases "c < totalSteps")
    case True
    then have "remaining_steps (Suc c) =
      (totalSteps,
       map (\<lambda>k. SetProcessingProgress (progress_value k)) [Suc (Suc c)..<Suc totalSteps])"
      using "1.IH" [of "(Suc c, [SetProcessingProgress (progress_value (Suc c))])" "Suc c"
                       "[SetProcessingProgress (progress_value (Suc c))]"]
      by (simp add: updateProgress_def)
    moreover have "[Suc c..<Suc totalSteps] = Suc c # [Suc (Suc c)..<Suc totalSteps]"
      using True by (simp add: upt_conv_Cons)
    ultimately show ?thesis
      using True by (subst remaining_steps.simps) (simp add: updateProgress_def)
  next
    case False
    with "1.prems" have "c = totalSteps" by simp
    then show ?thesis by (subst remaining_steps.simps) simp
  qed
qed

lemma progress_updates_append:
  "progress_updates (xs @ ys) = progress_updates xs @ progress_updates ys"
  by (induction xs rule: progress_updates.induct) simp_all

lemma progress_updates_map:
  "progress_updates (map (\<lambda>k. SetProcessingProgress (f k)) ks) = map f ks"
  by (induction ks) simp_all


text \<open>What it means that the engine has returned a buffer.\<close>

lemma engine_result_Some:
  "engine_result wasm st = Some processedBuffer \<longleftrightarrow>
     (\<exists>f m buf. audioFile st = Some f \<and> wasm = Some m \<and> arrayBuffer f = Inr buf \<and>
        m buf (engine_argument st) = Inr processedBuffer)"
proof (cases "audioFile st")
  case None
  then show ?thesis by (simp add: engine_result_def)
next
  case (Some f)
  show ?thesis
  proof (cases wasm)
    case None
    with Some show ?thesis by (simp add: engine_result_def)
  next
    case m: (Some m)
    show ?thesis
    proof (cases "arrayBuffer f")
      case (Inl err)
      with Some m show ?thesis by (simp add: engine_result_def)
    next
      case (Inr buf)
      with Some m show ?thesis
        by (cases "m buf (engine_argument st)") (simp_all add: engine_result_def)
    qed
  qed
qed

text \<open>The effects of a run that reaches the end of the \<open>try\<close> block.\<close>

lemma App_processAudio_success:
  assumes "engine_result wasm st = Some processedBuffer"
  shows "\<exists>buf.
     App_processAudio wasm st =
       [SetIsProcessing True, SetProcessingProgress 0, SetProcessingProgress (progress_value 1),
        Engine_processAudio buf (engine_argument st)] @
       map (\<lambda>k. SetProcessingProgress (progress_value k)) [2..<Suc totalSteps] @
       [SetProcessedAudio processedBuffer] @
       (case audioOutputRef st of None \<Rightarrow> [] | Some src \<Rightarrow> [SetAudioOutputSrc processedBuffer]) @
       [SetProcessingProgress 100, SetIsProcessing False]"
proof -
  have r: "snd (remaining_steps (Suc 0)) =
      map (\<lambda>k. SetProcessingProgress (progress_value k)) [2..<Suc totalSteps]"
    using remaining_steps_eq [of "Suc 0"] by (simp add: totalSteps_def numeral_2_eq_2)
  obtain f m buf where h: "audioFile st = Some f" "wasm = Some m" "arrayBuffer f = Inr buf"
      "m buf (engine_argument st) = Inr processedBuffer"
    using assms unfolding engine_result_Some by blast
  have "App_processAudio wasm st =
       [SetIsProcessing True, SetProcessingProgress 0, SetProcessingProgress (progress_value 1),
        Engine_processAudio buf (engine_argument st)] @
       map (\<lambda>k. SetProcessingProgress (progress_value k)) [2..<Suc totalSteps] @
       [SetProcessedAudio processedBuffer] @
       (case audioOutputRef st of None \<Rightarrow> [] | Some src \<Rightarrow> [SetAudioOutputSrc processedBuffer]) @
       [SetProcessingProgress 100, SetIsProcessing False]"
    unfolding App_processAudio_def
    by (simp add: h updateProgress_def r del: upt_Suc)
  then show ?thesis ..
qed

text \<open>The effects of a run that does not: it never starts, or ends in the \<open>catch\<close> block.\<close>

lemma App_processAudio_failure:
  assumes "engine_result wasm st = None"
  shows "App_processAudio wasm st = [] \<or>
     (\<exists>err. App_processAudio wasm st =
        [SetIsProcessing True, SetProcessingProgress 0, ConsoleError err,
         SetIsProcessing False]) \<or>
     (\<exists>buf err. App_processAudio wasm st =
        [SetIsProcessing True, SetProcessingProgress 0, SetProcessingProgress (progress_value 1),
         Engine_processAudio buf (engine_argument st), ConsoleError err,
         SetIsProcessing False])"
proof (cases "audioFile st")
  case None
  then show ?thesis by (simp add: App_processAudio_def)
next
  case (Some f)
  show ?thesis
  proof (cases wasm)
    case None
    with Some show ?thesis by (simp add: App_processAudio_def)
  next
    case m: (Some m)
    show ?thesis
    proof (cases "arrayBuffer f")
      case (Inl err)
      with Some m show ?thesis by (simp add: App_processAudio_def)
    next
      case (Inr buf)
      with Some m assms obtain err where "m buf (engine_argument st) = Inl err"
        by (cases "m buf (engine_argument st)") (simp_all add: engine_result_def)
      with Some m Inr show ?thesis
        by (simp add: App_processAudio_def updateProgress_def)
    qed
  qed
qed

lemma progress_updates_success:
  assumes "engine_result wasm st = Some processedBuffer"
  shows "progress_updates (App_processAudio wasm st) =
           map progress_value [0..<Suc totalSteps] @ [100]"
proof -
  have u: "[0..<Suc totalSteps] = 0 # 1 # [2..<Suc totalSteps]"
    by (simp add: totalSteps_def upt_conv_Cons)
  have z: "progress_value 0 = 0"
    by (simp add: progress_value_eq)
  define ks where "ks = [2..<Suc totalSteps]"
  obtain buf where "App_processAudio wasm st =
       [SetIsProcessing True, SetProcessingProgress 0, SetProcessingProgress (progress_value 1),
        Engine_processAudio buf (engine_argument st)] @
       map (\<lambda>k. SetProcessingProgress (progress_value k)) ks @
       [SetProcessedAudio processedBuffer] @
       (case audioOutputRef st of None \<Rightarrow> [] | Some src \<Rightarrow> [SetAudioOutputSrc processedBuffer]) @
       [SetProcessingProgress 100, SetIsProcessing False]"
    using App_processAudio_success [OF assms] unfolding ks_def by blast
  then have "progress_updates (App_processAudio wasm st) =
      0 # progress_value 1 # map progress_value ks @ [100]"
    by (simp add: progress_updates_append progress_updates_map split: option.split)
  also have "\<dots> = map progress_value (0 # 1 # ks) @ [100]"
    by (simp add: z)
  finally show ?thesis
    unfolding ks_def by (simp only: u)
qed

lemma progress_updates_failure:
  assumes "engine_result wasm st = None"
  shows "progress_updates (App_processAudio wasm st) \<in> {[], [0], [0, 5]}"
  using App_processAudio_failure [OF assms] by (auto simp: progress_value_eq)



text \<open>
  C1, as the specification states it, fails: the progress of a job does not follow the
  samples. A file of three bytes is processed by an engine that returns at once. Progress 5
  is reported before the engine has been called, progress 10 to 99 after it has returned the
  whole result, and after the last of the twenty steps the value is 99, where
  \<open>floor(100 * 20 / 20)\<close> is 100.
\<close>

theorem progress_follows_samples_counterexample:
  "App_processAudio (Some passthrough_module) selected_app =
     [SetIsProcessing True, SetProcessingProgress 0, SetProcessingProgress 5,
      Engine_processAudio (JBuf [1, 2, 3])
        (JObj [(''filterLength'', JNum (Fin 512)), (''stepSize'', JNum (Fin 0.05))]),
      SetProcessingProgress 10, SetProcessingProgress 15, SetProcessingProgress 20,
      SetProcessingProgress 25, SetProcessingProgress 30, SetProcessingProgress 35,
      SetProcessingProgress 40, SetProcessingProgress 45, SetProcessingProgress 50,
      SetProcessingProgress 55, SetProcessingProgress 60, SetProcessingProgress 65,
      SetProcessingProgress 70, SetProcessingProgress 75, SetProcessingProgress 80,
      SetProcessingProgress 85, SetProcessingProgress 90, SetProcessingProgress 95,
      SetProcessingProgress 99,
      SetProcessedAudio (JBuf [1, 2, 3]), SetProcessingProgress 100, SetIsProcessing False] \<and>
   updateProgress 19 = (totalSteps, [SetProcessingProgress 99]) \<and>
   \<lfloor>100 * real totalSteps / real totalSteps\<rfloor> = (100 :: int)"
proof -
  have r: "snd (remaining_steps (Suc 0)) =
      map (\<lambda>k. SetProcessingProgress (progress_value k)) [2..<Suc totalSteps]"
    using remaining_steps_eq [of "Suc 0"] by (simp add: totalSteps_def numeral_2_eq_2)
  have u: "[2..<Suc totalSteps] =
      [2, 3, 4, 5, 6, 7, 8, 9, 10, 11, 12, 13, 14, 15, 16, 17, 18, 19, 20]"
    by (simp add: totalSteps_def upt_conv_Cons)
  have a: "App_processAudio (Some passthrough_module) selected_app =
      [SetIsProcessing True, SetProcessingProgress 0, SetProcessingProgress (progress_value 1),
       Engine_processAudio (JBuf [1, 2, 3])
         (JObj [(''filterLength'', JNum (Fin 512)), (''stepSize'', JNum (Fin 0.05))])] @
      snd (remaining_steps (Suc 0)) @
      [SetProcessedAudio (JBuf [1, 2, 3]), SetProcessingProgress 100, SetIsProcessing False]"
    by (simp add: App_processAudio_def selected_app_def passthrough_module_def
        updateProgress_def engine_argument_def read_setting_def initial_settings_def)
  have b: "updateProgress 19 = (totalSteps, [SetProcessingProgress 99])"
    by (simp add: updateProgress_def progress_value_eq totalSteps_def)
  have c: "\<lfloor>100 * real totalSteps / real totalSteps\<rfloor> = (100 :: int)"
    by (simp add: totalSteps_def)
  show ?thesis
    by (simp only: a b c r u) (simp add: progress_value_eq)
qed

text \<open>
  C1, amended. Progress is simulated in twenty steps that are not tied to the samples.
  After step \<open>k\<close> the reported value is \<open>min(floor(100 * k / 20), 99)\<close>, which is below
  100 at every step, the last included. When the engine has returned a buffer, the reported
  values are those of the steps 0 to 20 followed by 100, and 100 is set right after the
  processed audio has been stored, as the last effect but the reset of \<open>isProcessing\<close>. On
  every other run the values reported are none, 0, or 0 and 5, and 100 is never set.
\<close>

theorem simulated_progress:
  "progress_value k = min (100 * int k div int totalSteps) 99 \<and>
   progress_value k < 100 \<and>
   (engine_result wasm st = Some processedBuffer \<longrightarrow>
      progress_updates (App_processAudio wasm st) =
        map progress_value [0..<Suc totalSteps] @ [100] \<and>
      (\<exists>before. App_processAudio wasm st =
         before @ [SetProcessedAudio processedBuffer] @
         (case audioOutputRef st of None \<Rightarrow> [] | Some src \<Rightarrow> [SetAudioOutputSrc processedBuffer]) @
         [SetProcessingProgress 100, SetIsProcessing False])) \<and>
   (engine_result wasm st = None \<longrightarrow>
      progress_updates (App_processAudio wasm st) \<in> {[], [0], [0, 5]})"
proof -
  have "progress_value k = min (100 * int k div int totalSteps) 99"
    by (simp add: progress_value_eq totalSteps_def)
  moreover have "progress_value k < 100"
    by (simp add: progress_value_eq)
  moreover have "\<exists>before. App_processAudio wasm st =
         before @ [SetProcessedAudio processedBuffer] @
         (case audioOutputRef st of None \<Rightarrow> [] | Some src \<Rightarrow> [SetAudioOutputSrc processedBuffer]) @
         [SetProcessingProgress 100, SetIsProcessing False]"
    if "engine_result wasm st = Some processedBuffer"
    using App_processAudio_success [OF that] by (metis append.assoc)
  ultimately show ?thesis
    using progress_updates_success [of wasm st processedBuffer]
      progress_updates_failure [of wasm st]
    by blast
qed

theorem simulated_progress_witness:
  "engine_result (Some passthrough_module) selected_app = Some (JBuf [1, 2, 3]) \<and>
   progress_updates (App_processAudio (Some passthrough_module) selected_app) =
     map progress_value [0..<Suc totalSteps] @ [100] \<and>
   engine_result (Some rejecting_module) selected_app = None \<and>
   progress_updates (App_processAudio (Some rejecting_module) selected_app) \<in> {[], [0], [0, 5]}"
proof -
  have a: "engine_result (Some passthrough_module) selected_app = Some (JBuf [1, 2, 3])"
    by (simp add: engine_result_def selected_app_def passthrough_module_def)
  have b: "engine_result (Some rejecting_module) selected_app = None"
    by (simp add: engine_result_def selected_app_def rejecting_module_def)
  show ?thesis
    using a b
      simulated_progress [of 0 "Some passthrough_module" selected_app "JBuf [1, 2, 3]"]
      simulated_progress [of 0 "Some rejecting_module" selected_app "JBuf [1, 2, 3]"]
    by simp
qed




section \<open>Properties of the audio utilities\<close>

text \<open>
  A sum of squares that starts from a value that is not negative is zero only if it started
  from zero and every element is zero.
\<close>

lemma not_negative_step: "not_negative s \<Longrightarrow> not_negative (js_add s (js_mul x x))"
  by (cases s; cases x) auto

lemma zero_step:
  "not_negative s \<Longrightarrow> js_add s (js_mul x x) = Fin 0 \<Longrightarrow> s = Fin 0 \<and> x = Fin 0"
proof (cases s; cases x)
  fix a b
  assume h: "not_negative s" "js_add s (js_mul x x) = Fin 0" "s = Fin a" "x = Fin b"
  then have "a + b * b = 0" "0 \<le> a" by simp_all
  moreover have "0 \<le> b * b" by simp
  ultimately have "a = 0 \<and> b * b = 0" by linarith
  with h show ?thesis by simp
qed auto

lemma calculateRMS_loop_zero:
  "not_negative s \<Longrightarrow> calculateRMS_loop s xs = Fin 0 \<Longrightarrow> s = Fin 0 \<and> (\<forall>x \<in> set xs. x = Fin 0)"
proof (induction xs arbitrary: s)
  case Nil
  then show ?case by simp
next
  case (Cons x xs)
  have "js_add s (js_mul x x) = Fin 0 \<and> (\<forall>y \<in> set xs. y = Fin 0)"
    using Cons.IH [of "js_add s (js_mul x x)"] Cons.prems not_negative_step by simp
  then show ?case
    using zero_step [of s x] Cons.prems(1) by simp
qed

lemma js_sqrt_zero: "js_sqrt q = Fin 0 \<Longrightarrow> q = Fin 0"
  by (cases q) (auto split: if_splits)

lemma js_div_zero: "js_div s (Fin n) = Fin 0 \<Longrightarrow> s = Fin 0 \<and> n \<noteq> 0"
  by (cases s) (auto split: if_splits)

lemma calculateRMS_zero:
  assumes "calculateRMS buffer = Fin 0"
  shows "buffer \<noteq> [] \<and> (\<forall>x \<in> set buffer. x = Fin 0)"
proof -
  have "calculateRMS_loop (Fin 0) buffer = Fin 0 \<and> real (length buffer) \<noteq> 0"
    using assms js_sqrt_zero js_div_zero unfolding calculateRMS_def by blast
  then show ?thesis
    using calculateRMS_loop_zero [of "Fin 0" buffer] by auto
qed

lemma js_div_by_zero: "js_div t (Fin 0) \<in> {PInf, NInf, NaN}"
  by (cases t) auto

lemma zero_times_not_finite: "g \<in> {PInf, NInf, NaN} \<Longrightarrow> js_mul (Fin 0) g = NaN"
  by auto

lemma js_div_NaN: "js_div t NaN = NaN"
  by (cases t) simp_all

lemma calculateRMS_loop_zeros:
  "calculateRMS_loop (Fin 0) (replicate n (Fin 0)) = Fin 0"
  by (induction n) simp_all

text \<open>
  C9. When the RMS of the buffer is zero, the gain is the target divided by zero, which is
  an infinity or \<open>NaN\<close>, and every element of the result is \<open>NaN\<close>; the result is as long as
  the buffer. For the empty buffer the RMS is \<open>NaN\<close> already, and so is the gain (the result
  is empty). A buffer of zeros, if it is not empty, has RMS zero.
\<close>

theorem normalizeAudio_zero_rms:
  "(calculateRMS buffer = Fin 0 \<longrightarrow>
      normalizeAudio_gain buffer targetRMS \<in> {PInf, NInf, NaN} \<and>
      normalizeAudio buffer targetRMS = replicate (length buffer) NaN) \<and>
   calculateRMS [] = NaN \<and>
   normalizeAudio_gain [] targetRMS = NaN \<and>
   normalizeAudio [] targetRMS = [] \<and>
   calculateRMS (replicate (Suc n) (Fin 0)) = Fin 0"
proof -
  have "normalizeAudio_gain buffer targetRMS \<in> {PInf, NInf, NaN} \<and>
      normalizeAudio buffer targetRMS = replicate (length buffer) NaN"
    if h: "calculateRMS buffer = Fin 0"
  proof -
    have g: "normalizeAudio_gain buffer targetRMS \<in> {PInf, NInf, NaN}"
      using js_div_by_zero by (simp add: normalizeAudio_gain_def h)
    have "\<forall>x \<in> set buffer. x = Fin 0"
      using calculateRMS_zero [OF h] by simp
    then have "map (\<lambda>x. js_mul x (normalizeAudio_gain buffer targetRMS)) buffer =
        map (\<lambda>x. NaN) buffer"
      using zero_times_not_finite [OF g] by (intro map_cong) simp_all
    then show ?thesis
      using g by (simp add: normalizeAudio_def map_replicate_const)
  qed
  moreover have "calculateRMS [] = NaN"
    by (simp add: calculateRMS_def)
  moreover have "normalizeAudio_gain [] targetRMS = NaN"
    by (simp add: normalizeAudio_gain_def calculateRMS_def js_div_NaN)
  moreover have "calculateRMS (replicate (Suc n) (Fin 0)) = Fin 0"
    unfolding calculateRMS_def calculateRMS_loop_zeros by simp
  ultimately show ?thesis
    by (simp add: normalizeAudio_def)
qed

theorem normalizeAudio_zero_rms_witness:
  "calculateRMS [Fin 0, Fin 0] = Fin 0 \<and>
   normalizeAudio_gain [Fin 0, Fin 0] None = PInf \<and>
   normalizeAudio [Fin 0, Fin 0] None = [NaN, NaN]"
proof -
  have a: "calculateRMS [Fin 0, Fin 0] = Fin 0"
    by (simp add: calculateRMS_def)
  have b: "normalizeAudio_gain [Fin 0, Fin 0] None = PInf"
    by (simp add: normalizeAudio_gain_def a)
  show ?thesis
    using a b normalizeAudio_zero_rms [of "[Fin 0, Fin 0]" None 0]
    by (simp add: numeral_2_eq_2)
qed

section \<open>Properties of the engine\<close>

subsection \<open>The filter core\<close>

lemma process_samples_length:
  "process_samples fs xs = Inr (fs', es) \<Longrightarrow> length es = length xs"
proof (induction xs arbitrary: fs fs' es)
  case Nil
  then show ?case by simp
next
  case (Cons x xs)
  then show ?case
    by (auto split: sum.splits prod.splits)
qed

lemma processSample_error: "processSample fs x = Inl err \<Longrightarrow> err = DivergenceError"
  by (simp add: processSample_def Let_def split: if_splits)

lemma process_samples_error: "process_samples fs xs = Inl err \<Longrightarrow> err = DivergenceError"
proof (induction xs arbitrary: fs)
  case Nil
  then show ?case by simp
next
  case (Cons x xs)
  then show ?case
    by (auto split: sum.splits prod.splits dest: processSample_error)
qed

lemma is_finite_iff: "is_finite x \<longleftrightarrow> (\<exists>a. x = Fin a)"
  by (cases x) simp_all

lemma is_finite_ops:
  "is_finite x \<Longrightarrow> is_finite y \<Longrightarrow> is_finite (js_add x y)"
  "is_finite x \<Longrightarrow> is_finite y \<Longrightarrow> is_finite (js_mul x y)"
  "is_finite x \<Longrightarrow> is_finite y \<Longrightarrow> is_finite (js_sub x y)"
  "is_finite x \<Longrightarrow> is_finite (clamp x)"
  by (auto simp: is_finite_iff js_sub_def)

lemma dot_finite:
  "list_all is_finite cs \<Longrightarrow> list_all is_finite hs \<Longrightarrow> is_finite (dot cs hs)"
  by (induction cs hs rule: dot.induct) (simp_all add: is_finite_ops)

lemma dot_self: "list_all is_finite hs \<Longrightarrow> \<exists>d\<ge>0. dot hs hs = Fin d"
proof (induction hs)
  case Nil
  then show ?case by simp
next
  case (Cons h hs)
  then obtain a d where "h = Fin a" "0 \<le> d" "dot hs hs = Fin d"
    by (auto simp: is_finite_iff)
  then show ?case by simp
qed

lemma step_size_finite:
  assumes "list_all is_finite hs" and "is_finite ss" and "positive eps"
  shows "is_finite (js_div ss (js_add (dot hs hs) eps))"
proof -
  obtain d where d: "0 \<le> d" "dot hs hs = Fin d"
    using dot_self [OF assms(1)] by blast
  obtain a where a: "ss = Fin a"
    using assms(2) by (auto simp: is_finite_iff)
  obtain b where b: "eps = Fin b" "0 < b"
    using assms(3) by (cases eps) simp_all
  show ?thesis
    using d a b by simp
qed

lemma processSample_finite:
  assumes "finite_state fs" and "is_finite x"
  shows "\<exists>fs' e. processSample fs x = Inr (fs', e) \<and> finite_state fs' \<and> is_finite e"
proof -
  define h where "h = history fs"
  define e where "e = clamp (js_sub x (dot (coefficients fs) h))"
  define mu where "mu = js_div (fs_stepSize fs) (js_add (dot h h) (fs_epsilon fs))"
  define cs where "cs = map (\<lambda>(c, hi). js_add c (js_mul (js_mul mu e) hi))
                              (zip (coefficients fs) h)"
  have fin: "list_all is_finite (coefficients fs)" "list_all is_finite h"
      "is_finite (fs_stepSize fs)" "positive (fs_epsilon fs)"
    using assms(1) by (simp_all add: finite_state_def h_def)
  have e: "is_finite e"
    unfolding e_def using fin assms(2) by (intro is_finite_ops dot_finite)
  have mu: "is_finite mu"
    unfolding mu_def using fin by (intro step_size_finite)
  have "\<forall>p \<in> set (zip (coefficients fs) h). is_finite (fst p) \<and> is_finite (snd p)"
    using fin by (auto simp: list_all_iff dest: set_zip_leftD set_zip_rightD)
  then have cs: "list_all is_finite cs"
    unfolding cs_def using e mu by (auto simp: list_all_iff intro!: is_finite_ops)
  have hist: "list_all is_finite (tl h @ [x])"
    using fin(2) assms(2) by (cases h) simp_all
  have "processSample fs x = Inr (fs\<lparr>coefficients := cs, history := tl h @ [x]\<rparr>, e)"
    using e cs
    by (simp add: processSample_def Let_def h_def [symmetric] e_def [symmetric]
        mu_def [symmetric] cs_def [symmetric])
  moreover have "finite_state (fs\<lparr>coefficients := cs, history := tl h @ [x]\<rparr>)"
    using cs hist fin by (simp add: finite_state_def)
  ultimately show ?thesis
    using e by blast
qed

lemma process_samples_finite:
  "finite_state fs \<Longrightarrow> list_all is_finite xs \<Longrightarrow>
   \<exists>fs' es. process_samples fs xs = Inr (fs', es) \<and> finite_state fs'"
proof (induction xs arbitrary: fs)
  case Nil
  then show ?case by simp
next
  case (Cons x xs)
  obtain fs1 e where 1: "processSample fs x = Inr (fs1, e)" "finite_state fs1"
    using processSample_finite [of fs x] Cons.prems by auto
  obtain fs2 es where 2: "process_samples fs1 xs = Inr (fs2, es)" "finite_state fs2"
    using Cons.IH [OF 1(2)] Cons.prems by auto
  show ?case
    using 1 2 by simp
qed

subsection \<open>The chunk loop\<close>

lemma step_job_not_running: "status j \<noteq> Running \<Longrightarrow> step_job n j = j"
  by (cases "status j") (simp_all add: step_job_def)

lemma funpow_step_job_not_running: "status j \<noteq> Running \<Longrightarrow> (step_job n ^^ k) j = j"
  by (induction k) (simp_all add: step_job_not_running)

text \<open>One turn of the loop on a running job that satisfies the invariant.\<close>

lemma step_job_running:
  assumes "0 < n" and "status j = Running" and "running_inv j"
  shows "job_inv (step_job n j) \<and>
         input (step_job n j) = input j \<and>
         (status (step_job n j) = Running \<longrightarrow>
            samplesProcessed (step_job n j) = samplesProcessed j + n)"
proof -
  obtain fs where fs: "filterState j = Some fs"
    using assms(3) by (auto simp: running_inv_def)
  have nc: "\<not> cancelRequested j"
    and lt: "samplesProcessed j < length (samples (input j))"
    and len: "length (outputs j) = samplesProcessed j"
    using assms(3) by (simp_all add: running_inv_def)
  define chunk where "chunk = take n (drop (samplesProcessed j) (samples (input j)))"
  have chunk_len: "length chunk = min n (length (samples (input j)) - samplesProcessed j)"
    by (simp add: chunk_def min.commute)
  show ?thesis
  proof (cases "process_samples fs chunk")
    case (Inl err)
    then have "step_job n j = j\<lparr>status := Failed, result := Some (Inl err), filterState := None\<rparr>"
      using assms(2) fs nc by (simp add: step_job_def Let_def chunk_def [symmetric])
    moreover have "err = DivergenceError"
      using Inl by (rule process_samples_error)
    ultimately show ?thesis
      by (simp add: job_inv_def finished_inv_def)
  next
    case (Inr r)
    obtain fs' es where r: "r = (fs', es)"
      by (cases r)
    have es: "length es = length chunk"
      using Inr r process_samples_length by simp
    show ?thesis
    proof (cases "length (samples (input j)) \<le> samplesProcessed j + length chunk")
      case True
      then have "step_job n j =
          j\<lparr>status := Completed, progressPercent := 100,
            result := Some (Inr \<lparr>sampleRate = sampleRate (input j),
                                 samples = outputs j @ es\<rparr>),
            filterState := None, samplesProcessed := samplesProcessed j + length chunk,
            outputs := outputs j @ es\<rparr>"
        using assms(2) fs nc Inr r
        by (simp add: step_job_def Let_def chunk_def [symmetric])
      moreover have "length (outputs j @ es) = length (samples (input j))"
        using True es len chunk_len lt by simp
      ultimately show ?thesis
        by (simp add: job_inv_def finished_inv_def)
    next
      case False
      then have s: "step_job n j =
          j\<lparr>progressPercent :=
               min 99 (100 * (samplesProcessed j + length chunk) div
                       length (samples (input j))),
            filterState := Some fs', samplesProcessed := samplesProcessed j + length chunk,
            outputs := outputs j @ es\<rparr>"
        using assms(2) fs nc Inr r
        by (simp add: step_job_def Let_def chunk_def [symmetric])
      have "length chunk = n"
        using False chunk_len by simp
      then show ?thesis
        using False es len nc assms(2)
        by (simp add: s job_inv_def running_inv_def)
    qed
  qed
qed

lemma step_job_inv:
  assumes "0 < n" and "job_inv j"
  shows "job_inv (step_job n j) \<and> input (step_job n j) = input j"
proof (cases "status j = Running")
  case True
  then show ?thesis
    using step_job_running [OF assms(1) True] assms(2) by (simp add: job_inv_def)
next
  case False
  then show ?thesis
    using assms(2) by (simp add: step_job_not_running)
qed

text \<open>
  After enough turns the job has ended: \<open>k\<close> turns are enough when \<open>k\<close> chunks cover the
  samples that are left.
\<close>

lemma funpow_step_job_ends:
  "0 < n \<Longrightarrow> job_inv j \<Longrightarrow>
   (status j = Running \<longrightarrow> length (samples (input j)) \<le> samplesProcessed j + k * n) \<Longrightarrow>
   finished_inv ((step_job n ^^ k) j) \<and> input ((step_job n ^^ k) j) = input j"
proof (induction k arbitrary: j)
  case 0
  then have "status j \<noteq> Running"
    by (auto simp: job_inv_def running_inv_def)
  with 0 show ?case
    by (simp add: job_inv_def)
next
  case (Suc k)
  show ?case
  proof (cases "status j = Running")
    case False
    then show ?thesis
      using Suc.prems(2) funpow_step_job_not_running [where j = j and n = n and k = "Suc k"]
      by (simp add: job_inv_def del: funpow.simps)
  next
    case True
    then have r: "running_inv j"
      using Suc.prems(2) by (simp add: job_inv_def)
    have 1: "job_inv (step_job n j)" "input (step_job n j) = input j"
      and 2: "status (step_job n j) = Running \<longrightarrow>
              samplesProcessed (step_job n j) = samplesProcessed j + n"
      using step_job_running [OF Suc.prems(1) True r] by simp_all
    have 3: "status (step_job n j) = Running \<longrightarrow>
        length (samples (input (step_job n j))) \<le> samplesProcessed (step_job n j) + k * n"
      using 1(2) 2 Suc.prems(3) True by simp
    show ?thesis
      using Suc.IH [OF Suc.prems(1) 1(1) 3] 1(2) by (simp add: funpow_swap1)
  qed
qed

lemma num_chunks_cover: "0 < n \<Longrightarrow> totalSamples \<le> num_chunks totalSamples n * n"
proof -
  assume n: "0 < n"
  have "(totalSamples + n - 1) div n * n + (totalSamples + n - 1) mod n = totalSamples + n - 1"
    by simp
  moreover have "(totalSamples + n - 1) mod n < n"
    using n by simp
  ultimately show ?thesis
    unfolding num_chunks_def by linarith
qed

text \<open>The identifier of a job has no part in what the loop computes.\<close>

lemma step_job_renumber: "step_job n (j\<lparr>job_id := i\<rparr>) = (step_job n j)\<lparr>job_id := i\<rparr>"
proof (cases "status j = Running")
  case False
  then show ?thesis
    by (simp add: step_job_not_running)
next
  case True
  show ?thesis
  proof (cases "filterState j")
    case None
    with True show ?thesis
      by (simp add: step_job_def)
  next
    case (Some fs)
    show ?thesis
    proof (cases "process_samples fs (take n (drop (samplesProcessed j) (samples (input j))))")
      case (Inl err)
      with True Some show ?thesis
        by (simp add: step_job_def Let_def)
    next
      case (Inr r)
      with True Some show ?thesis
        by (cases r) (simp add: step_job_def Let_def)
    qed
  qed
qed

lemma funpow_step_job_renumber:
  "(step_job n ^^ k) (j\<lparr>job_id := i\<rparr>) = ((step_job n ^^ k) j)\<lparr>job_id := i\<rparr>"
  by (induction k) (simp_all add: step_job_renumber)

text \<open>The loop does not fail on finite numbers.\<close>

lemma step_job_finite:
  assumes "finite_job j"
  shows "finite_job (step_job n j)"
proof (cases "status j = Running \<and> filterState j \<noteq> None \<and> \<not> cancelRequested j")
  case False
  then have "step_job n j = j \<or> step_job n j = j\<lparr>status := Cancelled, filterState := None\<rparr>"
    by (cases "status j"; cases "filterState j") (simp_all add: step_job_def)
  then show ?thesis
    using assms by (auto simp: finite_job_def)
next
  case True
  then obtain fs where fs: "filterState j = Some fs"
    by auto
  define chunk where "chunk = take n (drop (samplesProcessed j) (samples (input j)))"
  have "list_all is_finite chunk"
    using assms by (auto simp: finite_job_def chunk_def list_all_iff dest: in_set_takeD in_set_dropD)
  moreover have "finite_state fs"
    using assms fs by (simp add: finite_job_def)
  ultimately obtain fs' es where p: "process_samples fs chunk = Inr (fs', es)" "finite_state fs'"
    using process_samples_finite by blast
  show ?thesis
    using True fs p assms
    by (simp add: step_job_def Let_def chunk_def [symmetric] finite_job_def)
qed

lemma funpow_step_job_finite: "finite_job j \<Longrightarrow> finite_job ((step_job n ^^ k) j)"
  by (induction k) (simp_all add: step_job_finite)

subsection \<open>Jobs on an engine\<close>

lemma funpow_step:
  "slot e = Some j \<Longrightarrow> (step ^^ k) e = e\<lparr>slot := Some ((step_job (chunkSize e) ^^ k) j)\<rparr>"
proof (induction k)
  case 0
  then show ?case by simp
next
  case (Suc k)
  then show ?case by (simp add: step_def)
qed

lemma valid_settings_reset:
  "valid_settings s \<Longrightarrow>
   reset (filterLength s) (stepSize s) eps =
     Inr \<lparr>coefficients = replicate (nat (filterLength s)) (Fin 0),
          history = replicate (nat (filterLength s)) (Fin 0),
          fs_stepSize = stepSize s, fs_epsilon = eps\<rparr>"
  by (simp add: valid_settings_def reset_def)

lemma submit_valid:
  "\<not> job_running e \<Longrightarrow> valid_settings s \<Longrightarrow>
   submit e signal s =
     Inr (nextId e, e\<lparr>slot := Some (submitted_job e signal s), nextId := nextId e + 1\<rparr>)"
  by (simp add: submit_def valid_settings_reset submitted_job_def)

lemma submit_invalid:
  "\<not> job_running e \<Longrightarrow> \<not> valid_settings s \<Longrightarrow> submit e signal s = Inl ValidationError"
  by (simp add: submit_def)

lemma run_to_completion_submitted:
  "run_to_completion (e\<lparr>slot := Some (submitted_job e signal s), nextId := i\<rparr>) =
     e\<lparr>slot := Some (finished_job e signal s), nextId := i\<rparr>"
proof -
  have "input (submitted_job e signal s) = signal"
    by (simp add: submitted_job_def begin_job_def new_job_def)
  then show ?thesis
    by (simp add: run_to_completion_def funpow_step finished_job_def)
qed

lemma process_signal_valid:
  "\<not> job_running e \<Longrightarrow> valid_settings s \<Longrightarrow>
   process_signal e signal s =
     Inr (Some (status (finished_job e signal s), result (finished_job e signal s)))"
  by (simp add: process_signal_def submit_valid run_to_completion_submitted)

lemma process_signal_invalid:
  "\<not> job_running e \<Longrightarrow> \<not> valid_settings s \<Longrightarrow> process_signal e signal s = Inl ValidationError"
  by (simp add: process_signal_def submit_invalid)

lemma submitted_job_inv:
  "job_inv (submitted_job e signal s) \<and> input (submitted_job e signal s) = signal \<and>
   samplesProcessed (submitted_job e signal s) = 0"
  by (simp add: submitted_job_def begin_job_def new_job_def job_inv_def running_inv_def
      finished_inv_def)

lemma finished_job_inv:
  assumes "0 < chunkSize e"
  shows "finished_inv (finished_job e signal s) \<and> input (finished_job e signal s) = signal"
proof -
  have "length (samples (input (submitted_job e signal s))) \<le>
      samplesProcessed (submitted_job e signal s) +
      num_chunks (length (samples signal)) (chunkSize e) * chunkSize e"
    using num_chunks_cover [OF assms] by (simp add: submitted_job_inv)
  then show ?thesis
    using funpow_step_job_ends [OF assms, of "submitted_job e signal s"
        "num_chunks (length (samples signal)) (chunkSize e)"]
    by (simp add: finished_job_def submitted_job_inv)
qed

lemma submitted_job_finite:
  assumes "valid_settings s" and "0 < epsilon e" and "list_all is_finite (samples signal)"
  shows "finite_job (submitted_job e signal s)"
proof -
  have "is_finite (stepSize s)"
    using assms(1) by (cases "stepSize s") (simp_all add: valid_settings_def)
  then show ?thesis
    using assms(2,3)
    by (simp add: finite_job_def submitted_job_def begin_job_def new_job_def
        finite_state_def list_all_iff)
qed

lemma finished_job_renumber:
  assumes "chunkSize e1 = chunkSize e2" and "epsilon e1 = epsilon e2"
  shows "finished_job e1 signal s = (finished_job e2 signal s)\<lparr>job_id := nextId e1\<rparr>"
proof -
  have "submitted_job e1 signal s = (submitted_job e2 signal s)\<lparr>job_id := nextId e1\<rparr>"
    using assms(2) by (simp add: submitted_job_def begin_job_def new_job_def)
  then show ?thesis
    using assms(1) by (simp add: finished_job_def funpow_step_job_renumber)
qed

text \<open>An engine with a free slot gives the same outcome as any other of the same configuration.\<close>

lemma process_signal_idle:
  assumes "chunkSize e1 = chunkSize e2" and "epsilon e1 = epsilon e2"
    and "\<not> job_running e1" and "\<not> job_running e2"
  shows "process_signal e1 signal s = process_signal e2 signal s"
proof (cases "valid_settings s")
  case True
  then show ?thesis
    using assms(3,4) finished_job_renumber [OF assms(1,2), of signal s]
    by (simp add: process_signal_valid)
next
  case False
  then show ?thesis
    using assms(3,4) by (simp add: process_signal_invalid)
qed

text \<open>A sequence of jobs, each run to its end, leaves the slot free and the configuration as it was.\<close>

lemma run_jobs_idle:
  "0 < chunkSize e \<Longrightarrow> \<not> job_running e \<Longrightarrow>
   chunkSize (run_jobs e js) = chunkSize e \<and> epsilon (run_jobs e js) = epsilon e \<and>
   \<not> job_running (run_jobs e js)"
proof (induction js arbitrary: e)
  case Nil
  then show ?case by simp
next
  case (Cons p js)
  obtain signal s where p: "p = (signal, s)"
    by (cases p)
  show ?case
  proof (cases "valid_settings s")
    case False
    then show ?thesis
      using Cons p by (simp add: submit_invalid)
  next
    case True
    define e' where "e' = e\<lparr>slot := Some (finished_job e signal s), nextId := nextId e + 1\<rparr>"
    have "status (finished_job e signal s) \<noteq> Running"
      using finished_job_inv [OF Cons.prems(1), of signal s] by (auto simp: finished_inv_def)
    then have "0 < chunkSize e'" "\<not> job_running e'"
      using Cons.prems(1) by (simp_all add: e'_def job_running_def)
    then have "chunkSize (run_jobs e' js) = chunkSize e' \<and>
        epsilon (run_jobs e' js) = epsilon e' \<and> \<not> job_running (run_jobs e' js)"
      by (rule Cons.IH)
    moreover have "run_jobs e (p # js) = run_jobs e' js"
      using True Cons.prems(2)
      by (simp add: p submit_valid run_to_completion_submitted e'_def)
    ultimately show ?thesis
      by (simp add: e'_def)
  qed
qed

text \<open>
  C6. On the engine as the specification describes it: settings whose filter length is
  outside \<open>[128, 2048]\<close> or is not a multiple of 128, or whose step size is outside
  \<open>(0.0, 0.2]\<close>, are rejected by \<open>submit\<close> with \<open>ValidationError\<close>, and that is what the
  host gets for the signal. No job is created or run: the engine after the rejected
  submission is the engine before it, with the slot and the next job identifier it had.
  (An engine on which a job is running rejects every submission with \<open>Busy\<close>, before it
  looks at the settings; the slot is free here.)
\<close>

theorem invalid_settings_rejected:
  assumes "filterLength s < 128 \<or> 2048 < filterLength s \<or> filterLength s mod 128 \<noteq> 0 \<or>
           \<not> stepSize_in_range (stepSize s)"
    and "\<not> job_running e"
  shows "submit e signal s = Inl ValidationError \<and>
         process_signal e signal s = Inl ValidationError \<and>
         run_jobs e [(signal, s)] = e"
proof -
  have "\<not> valid_settings s"
    using assms(1) by (auto simp: valid_settings_def)
  then show ?thesis
    using assms(2) by (simp add: submit_invalid process_signal_invalid)
qed

theorem invalid_settings_rejected_witness:
  "2048 < filterLength \<lparr>filterLength = 4096, stepSize = Fin 5\<rparr> \<and>
   \<not> stepSize_in_range (stepSize \<lparr>filterLength = 4096, stepSize = Fin 5\<rparr>) \<and>
   \<not> job_running small_engine \<and>
   submit small_engine short_signal \<lparr>filterLength = 4096, stepSize = Fin 5\<rparr> =
     Inl ValidationError \<and>
   run_jobs small_engine [(short_signal, \<lparr>filterLength = 4096, stepSize = Fin 5\<rparr>)] =
     small_engine"
proof -
  have a: "2048 < filterLength \<lparr>filterLength = 4096, stepSize = Fin 5\<rparr>"
    "\<not> stepSize_in_range (stepSize \<lparr>filterLength = 4096, stepSize = Fin 5\<rparr>)"
    by simp_all
  have b: "\<not> job_running small_engine"
    by (simp add: small_engine_def fresh_engine_def job_running_def)
  have c: "filterLength \<lparr>filterLength = 4096, stepSize = Fin 5\<rparr> < 128 \<or>
      2048 < filterLength \<lparr>filterLength = 4096, stepSize = Fin 5\<rparr> \<or>
      filterLength \<lparr>filterLength = 4096, stepSize = Fin 5\<rparr> mod 128 \<noteq> 0 \<or>
      \<not> stepSize_in_range (stepSize \<lparr>filterLength = 4096, stepSize = Fin 5\<rparr>)"
    by simp
  show ?thesis
    using a b invalid_settings_rejected [OF c b, of short_signal]
    by blast
qed

text \<open>
  C7. On the engine as the specification describes it: for valid settings, a positive chunk
  size and a free slot, a signal handed to the engine ends as a completed job whose result
  has as many samples as the signal, at the same sample rate, or as a job that failed with a
  divergence and has no output. When the samples are finite and the regularization constant
  is positive, it is the first of the two (in the arithmetic of this model, which has no
  overflow).
\<close>

theorem output_length_equals_input_length:
  assumes "valid_settings s" and "0 < chunkSize e" and "\<not> job_running e"
  shows "((\<exists>out. process_signal e signal s = Inr (Some (Completed, Some (Inr out))) \<and>
               length (samples out) = length (samples signal) \<and>
               sampleRate out = sampleRate signal) \<or>
          process_signal e signal s = Inr (Some (Failed, Some (Inl DivergenceError)))) \<and>
         (list_all is_finite (samples signal) \<and> 0 < epsilon e \<longrightarrow>
            (\<exists>out. process_signal e signal s = Inr (Some (Completed, Some (Inr out))) \<and>
                  length (samples out) = length (samples signal)))"
proof -
  define j where "j = finished_job e signal s"
  have p: "process_signal e signal s = Inr (Some (status j, result j))"
    using assms(1,3) by (simp add: process_signal_valid j_def)
  have f: "finished_inv j" and i: "input j = signal"
    using finished_job_inv [OF assms(2), of signal s] by (simp_all add: j_def)
  have 1: "(\<exists>out. process_signal e signal s = Inr (Some (Completed, Some (Inr out))) \<and>
               length (samples out) = length (samples signal) \<and>
               sampleRate out = sampleRate signal) \<or>
          process_signal e signal s = Inr (Some (Failed, Some (Inl DivergenceError)))"
    using f i p by (auto simp: finished_inv_def)
  have 2: "\<exists>out. process_signal e signal s = Inr (Some (Completed, Some (Inr out))) \<and>
                  length (samples out) = length (samples signal)"
    if "list_all is_finite (samples signal)" and "0 < epsilon e"
  proof -
    have "finite_job j"
      unfolding j_def finished_job_def
      using submitted_job_finite [OF assms(1) that(2,1)] by (rule funpow_step_job_finite)
    then have "status j \<noteq> Failed"
      by (simp add: finite_job_def)
    then show ?thesis
      using 1 p by auto
  qed
  show ?thesis
    using 1 2 by blast
qed

theorem output_length_equals_input_length_witness:
  "valid_settings default_settings \<and> 0 < chunkSize small_engine \<and>
   \<not> job_running small_engine \<and> list_all is_finite (samples short_signal) \<and>
   0 < epsilon small_engine \<and>
   (\<exists>out. process_signal small_engine short_signal default_settings =
            Inr (Some (Completed, Some (Inr out))) \<and>
          length (samples out) = 3)"
proof -
  have a: "valid_settings default_settings"
    by (simp add: valid_settings_def default_settings_def)
  have b: "0 < chunkSize small_engine"
    by (simp add: small_engine_def fresh_engine_def)
  have c: "\<not> job_running small_engine"
    by (simp add: small_engine_def fresh_engine_def job_running_def)
  have d: "list_all is_finite (samples short_signal)" "0 < epsilon small_engine"
    "length (samples short_signal) = 3"
    by (simp_all add: short_signal_def small_engine_def fresh_engine_def)
  show ?thesis
    using a b c d output_length_equals_input_length [OF a b c, of short_signal]
    by simp
qed

text \<open>A cancellation takes effect at the next turn of the loop and frees the slot.\<close>

lemma cancel_frees_slot:
  assumes "slot e = Some j" and "filterState j \<noteq> None"
  shows "\<not> job_running (step (cancel e (job_id j)))"
proof (cases "status j = Running")
  case False
  then show ?thesis
    using assms(1) by (simp add: cancel_def step_def job_running_def step_job_not_running)
next
  case True
  obtain fs where "filterState j = Some fs"
    using assms(2) by auto
  then show ?thesis
    using assms(1) True by (simp add: cancel_def step_def job_running_def step_job_def)
qed

lemma cancel_configuration:
  "chunkSize (step (cancel e jid)) = chunkSize e \<and> epsilon (step (cancel e jid)) = epsilon e"
  by (simp add: cancel_def step_def split: option.split)

text \<open>
  C8. On the engine as the specification describes it: the outcome of a signal and settings
  is a function of them and of the configuration of the engine alone. Two engines of the
  same configuration whose slots are free give the same outcome, whatever they did before.
  After any sequence of jobs on a fresh engine, each run to its end, and after a job that
  was cancelled, the outcome is the one that a fresh engine gives. (Equality of outcomes is
  equality of every number in them.)
\<close>

theorem no_state_leaks_between_jobs:
  "(chunkSize e1 = chunkSize e2 \<and> epsilon e1 = epsilon e2 \<and>
    \<not> job_running e1 \<and> \<not> job_running e2 \<longrightarrow>
      process_signal e1 signal s = process_signal e2 signal s) \<and>
   (0 < n \<longrightarrow>
      process_signal (run_jobs (fresh_engine n eps) js) signal s =
      process_signal (fresh_engine n eps) signal s) \<and>
   (slot e = Some j \<and> filterState j \<noteq> None \<longrightarrow>
      process_signal (step (cancel e (job_id j))) signal s =
      process_signal (fresh_engine (chunkSize e) (epsilon e)) signal s)"
proof -
  have "process_signal (run_jobs (fresh_engine n eps) js) signal s =
      process_signal (fresh_engine n eps) signal s" if "0 < n"
  proof -
    have "0 < chunkSize (fresh_engine n eps)" "\<not> job_running (fresh_engine n eps)"
      using that by (simp_all add: fresh_engine_def job_running_def)
    then show ?thesis
      using run_jobs_idle [of "fresh_engine n eps" js]
      by (intro process_signal_idle) simp_all
  qed
  moreover have "process_signal (step (cancel e (job_id j))) signal s =
      process_signal (fresh_engine (chunkSize e) (epsilon e)) signal s"
    if "slot e = Some j" and "filterState j \<noteq> None"
    using cancel_frees_slot [OF that] cancel_configuration [of e "job_id j"]
    by (intro process_signal_idle) (simp_all add: fresh_engine_def job_running_def)
  ultimately show ?thesis
    using process_signal_idle [of e1 e2 signal s] by blast
qed

theorem no_state_leaks_between_jobs_witness:
  "0 < (2 :: nat) \<and>
   process_signal
     (run_jobs (fresh_engine 2 0.001) [(other_signal, default_settings)])
     short_signal default_settings =
   process_signal (fresh_engine 2 0.001) short_signal default_settings \<and>
   job_running running_engine \<and>
   process_signal (step (cancel running_engine 0)) short_signal default_settings =
   process_signal (fresh_engine 2 0.001) short_signal default_settings"
proof -
  define j where "j = submitted_job small_engine other_signal default_settings"
  have a: "slot running_engine = Some j"
    by (simp add: running_engine_def j_def)
  have b: "filterState j \<noteq> None" "job_id j = 0" "status j = Running"
    by (simp_all add: j_def submitted_job_def begin_job_def new_job_def other_signal_def
        small_engine_def fresh_engine_def)
  have c: "fresh_engine (chunkSize running_engine) (epsilon running_engine) =
      fresh_engine 2 0.001"
    by (simp add: running_engine_def small_engine_def fresh_engine_def)
  have d: "job_running running_engine"
    using a b by (simp add: job_running_def)
  show ?thesis
    using a b c d
      no_state_leaks_between_jobs
          [of small_engine small_engine short_signal default_settings 2 "0.001"
              "[(other_signal, default_settings)]" running_engine j]
    by simp
qed

end
